theory Spec2Isabelle
  imports Main
begin

section \<open>Python values and the operations json_md.py uses\<close>

text \<open>
  A Python string is a sequence of Unicode code points; a code point is a natural number.
  ASCII literals of the source are embedded with \<open>ustr\<close>.
\<close>

type_synonym pystr = "nat list"

definition ustr :: "string \<Rightarrow> pystr" where
  "ustr s = map of_char s"

text \<open>
  The values that reach the program: what \<open>json.load\<close> produces (None, bool, int, str, list,
  dict with string keys, kept in insertion order) and the UUID object that \<open>uuid4()\<close> returns,
  given by its 128-bit integer. JSON numbers are integers here; no field the program reads
  is fractional.
\<close>

datatype pyval =
    PNone
  | PBool bool
  | PInt int
  | PStr pystr
  | PList "pyval list"
  | PDict "(pystr \<times> pyval) list"
  | PUUID nat

datatype pyerr = KeyError pyval | IndexError | TypeError | AttributeError | ValueError

definition andthen :: "pyerr + 'a \<Rightarrow> ('a \<Rightarrow> pyerr + 'b) \<Rightarrow> pyerr + 'b" where
  "andthen m f = (case m of Inl e \<Rightarrow> Inl e | Inr x \<Rightarrow> f x)"

fun collect :: "(pyerr + 'a) list \<Rightarrow> pyerr + 'a list" where
  "collect [] = Inr []"
| "collect (r # rs) = andthen r (\<lambda>x. andthen (collect rs) (\<lambda>xs. Inr (x # xs)))"

text \<open>Truth value of an object, as \<open>if x:\<close> tests it.\<close>

fun py_truthy :: "pyval \<Rightarrow> bool" where
  "py_truthy PNone = False"
| "py_truthy (PBool b) = b"
| "py_truthy (PInt i) = (i \<noteq> 0)"
| "py_truthy (PStr s) = (s \<noteq> [])"
| "py_truthy (PList xs) = (xs \<noteq> [])"
| "py_truthy (PDict kvs) = (kvs \<noteq> [])"
| "py_truthy (PUUID u) = True"

text \<open>\<open>xs[i]\<close> on a sequence: positions from the front, or from the back when \<open>i\<close> is below zero.\<close>

definition seq_index :: "'a list \<Rightarrow> int \<Rightarrow> pyerr + 'a" where
  "seq_index xs i =
     (if 0 \<le> i \<and> i < int (length xs) then Inr (xs ! nat i)
      else if i < 0 \<and> - int (length xs) \<le> i then Inr (xs ! nat (int (length xs) + i))
      else Inl IndexError)"

text \<open>
  Subscription \<open>x[k]\<close>. A dict raises KeyError for a key it does not hold (its keys are all
  strings) and TypeError for an unhashable key; lists and strings take integer indices;
  None, numbers and UUID objects are not subscriptable.
\<close>

fun py_getitem :: "pyval \<Rightarrow> pyval \<Rightarrow> pyerr + pyval" where
  "py_getitem (PDict kvs) (PStr k) =
     (case map_of kvs k of Some v \<Rightarrow> Inr v | None \<Rightarrow> Inl (KeyError (PStr k)))"
| "py_getitem (PDict kvs) (PList ks) = Inl TypeError"
| "py_getitem (PDict kvs) (PDict ks) = Inl TypeError"
| "py_getitem (PDict kvs) k = Inl (KeyError k)"
| "py_getitem (PList xs) (PInt i) = seq_index xs i"
| "py_getitem (PList xs) (PBool b) = seq_index xs (if b then 1 else 0)"
| "py_getitem (PStr s) (PInt i) = map_sum id (\<lambda>c. PStr [c]) (seq_index s i)"
| "py_getitem (PStr s) (PBool b) = map_sum id (\<lambda>c. PStr [c]) (seq_index s (if b then 1 else 0))"
| "py_getitem x k = Inl TypeError"

text \<open>
  The slice \<open>x[1:]\<close>. On a dict the slice is used as a key, which CPython up to 3.11 rejects
  as unhashable.
\<close>

fun py_slice_from1 :: "pyval \<Rightarrow> pyerr + pyval" where
  "py_slice_from1 (PList xs) = Inr (PList (drop 1 xs))"
| "py_slice_from1 (PStr s) = Inr (PStr (drop 1 s))"
| "py_slice_from1 x = Inl TypeError"

fun py_len :: "pyval \<Rightarrow> pyerr + nat" where
  "py_len (PList xs) = Inr (length xs)"
| "py_len (PStr s) = Inr (length s)"
| "py_len (PDict kvs) = Inr (length kvs)"
| "py_len x = Inl TypeError"

text \<open>Iteration: a list yields its elements, a string its characters, a dict its keys.\<close>

fun py_iter :: "pyval \<Rightarrow> pyerr + pyval list" where
  "py_iter (PList xs) = Inr xs"
| "py_iter (PStr s) = Inr (map (\<lambda>c. PStr [c]) s)"
| "py_iter (PDict kvs) = Inr (map (\<lambda>kv. PStr (fst kv)) kvs)"
| "py_iter x = Inl TypeError"

text \<open>
  The operator \<open>+\<close>: concatenation of two strings or two lists, addition of numbers
  (a bool counts as 0 or 1); every other pair of operand types raises TypeError, a UUID
  object on either side included.
\<close>

fun py_add :: "pyval \<Rightarrow> pyval \<Rightarrow> pyerr + pyval" where
  "py_add (PStr a) (PStr b) = Inr (PStr (a @ b))"
| "py_add (PList a) (PList b) = Inr (PList (a @ b))"
| "py_add (PInt a) (PInt b) = Inr (PInt (a + b))"
| "py_add (PInt a) (PBool b) = Inr (PInt (a + (if b then 1 else 0)))"
| "py_add (PBool a) (PInt b) = Inr (PInt ((if a then 1 else 0) + b))"
| "py_add (PBool a) (PBool b) = Inr (PInt ((if a then 1 else 0) + (if b then 1 else 0)))"
| "py_add x y = Inl TypeError"

subsection \<open>String methods\<close>

fun join :: "pystr \<Rightarrow> pystr list \<Rightarrow> pystr" where
  "join sep [] = []"
| "join sep [x] = x"
| "join sep (x # y # ys) = x @ sep @ join sep (y # ys)"

fun the_str :: "pyval \<Rightarrow> pyerr + pystr" where
  "the_str (PStr s) = Inr s"
| "the_str x = Inl TypeError"

text \<open>\<open>sep.join(x)\<close>: \<open>x\<close> must be iterable and every item a string.\<close>

definition str_join :: "pystr \<Rightarrow> pyval \<Rightarrow> pyerr + pystr" where
  "str_join sep x =
     andthen (py_iter x) (\<lambda>items.
     andthen (collect (map the_str items)) (\<lambda>strs.
     Inr (join sep strs)))"

text \<open>
  The line boundaries of \<open>str.splitlines\<close>: LF, VT, FF, CR, FS, GS, RS, NEL, LS and PS;
  CR LF is one boundary.
\<close>

definition is_linebreak :: "nat \<Rightarrow> bool" where
  "is_linebreak c \<longleftrightarrow> c \<in> {0x0A, 0x0B, 0x0C, 0x0D, 0x1C, 0x1D, 0x1E, 0x85, 0x2028, 0x2029}"

fun splitlines_from :: "pystr \<Rightarrow> pystr \<Rightarrow> pystr list" where
  "splitlines_from cur [] = (if cur = [] then [] else [rev cur])"
| "splitlines_from cur (c # cs) =
     (if c = 0x0D then
        (case cs of
           [] \<Rightarrow> [rev cur]
         | d # ds \<Rightarrow> if d = 0x0A then rev cur # splitlines_from [] ds
                     else rev cur # splitlines_from [] (d # ds))
      else if is_linebreak c then rev cur # splitlines_from [] cs
      else splitlines_from (c # cur) cs)"

definition splitlines :: "pystr \<Rightarrow> pystr list" where
  "splitlines s = splitlines_from [] s"

text \<open>The characters \<open>str.strip()\<close> removes: those for which \<open>str.isspace\<close> holds.\<close>

definition is_space :: "nat \<Rightarrow> bool" where
  "is_space c \<longleftrightarrow>
     (0x09 \<le> c \<and> c \<le> 0x0D) \<or> (0x1C \<le> c \<and> c \<le> 0x20) \<or> c = 0x85 \<or> c = 0xA0 \<or>
     c = 0x1680 \<or> (0x2000 \<le> c \<and> c \<le> 0x200A) \<or> c = 0x2028 \<or> c = 0x2029 \<or>
     c = 0x202F \<or> c = 0x205F \<or> c = 0x3000"

definition strip :: "pystr \<Rightarrow> pystr" where
  "strip s = rev (dropWhile is_space (rev (dropWhile is_space s)))"

text \<open>\<open>x.splitlines()\<close>: only a string has the method.\<close>

fun py_splitlines :: "pyval \<Rightarrow> pyerr + pystr list" where
  "py_splitlines (PStr s) = Inr (splitlines s)"
| "py_splitlines x = Inl AttributeError"

text \<open>The generator \<open>(line for line in x.splitlines() if line.strip())\<close>.\<close>

definition nonblank_lines :: "pyval \<Rightarrow> pyerr + pystr list" where
  "nonblank_lines x =
     andthen (py_splitlines x) (\<lambda>ls. Inr (filter (\<lambda>line. strip line \<noteq> []) ls))"

subsection \<open>Decimal numerals\<close>

fun str_of_nat :: "nat \<Rightarrow> pystr" where
  "str_of_nat n = (if n < 10 then [48 + n] else str_of_nat (n div 10) @ [48 + n mod 10])"

declare str_of_nat.simps [simp del]

definition str_of_int :: "int \<Rightarrow> pystr" where
  "str_of_int i = (if i < 0 then 45 # str_of_nat (nat (- i)) else str_of_nat (nat i))"

subsection \<open>str.format with keyword arguments\<close>

text \<open>
  A format string is literal text with replacement fields \<open>{name}\<close>; \<open>{{\<close> and \<open>}}\<close> stand
  for a brace, a brace on its own raises ValueError. The templates of this program hold only
  plain named fields, so a field's text is taken whole as the keyword to look up.
\<close>

datatype piece = Lit pystr | Field pystr

fun scan_lit :: "pystr \<Rightarrow> pystr \<Rightarrow> pyerr + piece list"
  and scan_field :: "pystr \<Rightarrow> pystr \<Rightarrow> pyerr + piece list" where
  "scan_lit acc [] = Inr [Lit (rev acc)]"
| "scan_lit acc (c # cs) =
     (if c = 123 then
        (case cs of
           [] \<Rightarrow> Inl ValueError
         | d # ds \<Rightarrow> if d = 123 then scan_lit (123 # acc) ds
                     else map_sum id ((#) (Lit (rev acc))) (scan_field [] (d # ds)))
      else if c = 125 then
        (case cs of
           [] \<Rightarrow> Inl ValueError
         | d # ds \<Rightarrow> if d = 125 then scan_lit (125 # acc) ds else Inl ValueError)
      else scan_lit (c # acc) cs)"
| "scan_field acc [] = Inl ValueError"
| "scan_field acc (c # cs) =
     (if c = 125 then map_sum id ((#) (Field (rev acc))) (scan_lit [] cs)
      else scan_field (c # acc) cs)"

text \<open>
  \<open>format(v, '')\<close>, what a replacement field inserts: a string as it is, None, bools and ints
  by their \<open>str\<close>. For every other object it is the object's \<open>str\<close>, which for lists and dicts
  needs the Unicode database; that function is the parameter \<open>repr\<close>.
\<close>

fun py_str :: "(pyval \<Rightarrow> pystr) \<Rightarrow> pyval \<Rightarrow> pystr" where
  "py_str repr (PStr s) = s"
| "py_str repr PNone = ustr ''None''"
| "py_str repr (PBool b) = (if b then ustr ''True'' else ustr ''False'')"
| "py_str repr (PInt i) = str_of_int i"
| "py_str repr v = repr v"

text \<open>
  One piece rendered against the keyword arguments. A field with an empty or numeric name
  refers to a positional argument, and there are none.
\<close>

fun render_piece :: "(pyval \<Rightarrow> pystr) \<Rightarrow> (pystr \<times> pyval) list \<Rightarrow> piece \<Rightarrow> pyerr + pystr" where
  "render_piece repr kw (Lit s) = Inr s"
| "render_piece repr kw (Field name) =
     (if list_all (\<lambda>c. 48 \<le> c \<and> c \<le> 57) name then Inl IndexError
      else case map_of kw name of
             None \<Rightarrow> Inl (KeyError (PStr name))
           | Some v \<Rightarrow> Inr (py_str repr v))"

text \<open>\<open>template.format(**m)\<close>: \<open>m\<close> must be a mapping.\<close>

fun py_format :: "(pyval \<Rightarrow> pystr) \<Rightarrow> pystr \<Rightarrow> pyval \<Rightarrow> pyerr + pystr" where
  "py_format repr template (PDict kw) =
     andthen (scan_lit [] template) (\<lambda>ps.
     andthen (collect (map (render_piece repr kw) ps)) (\<lambda>ss.
     Inr (concat ss)))"
| "py_format repr template m = Inl TypeError"

subsection \<open>json.dumps with ensure_ascii=False\<close>

definition hex_digit :: "nat \<Rightarrow> nat" where
  "hex_digit d = (if d < 10 then 48 + d else 87 + d)"

text \<open>
  Only the quote, the backslash and the control characters below 0x20 are escaped; every
  other code point is written as it is.
\<close>

definition json_escape_char :: "nat \<Rightarrow> pystr" where
  "json_escape_char c =
     (if c = 34 then [92, 34]
      else if c = 92 then [92, 92]
      else if c = 10 then [92, 110]
      else if c = 13 then [92, 114]
      else if c = 9 then [92, 116]
      else if c = 8 then [92, 98]
      else if c = 12 then [92, 102]
      else if c < 32 then [92, 117, 48, 48, hex_digit (c div 16), hex_digit (c mod 16)]
      else [c])"

definition json_quote :: "pystr \<Rightarrow> pystr" where
  "json_quote s = 34 # concat (map json_escape_char s) @ [34]"

definition json_member :: "pystr \<times> (pyerr + pystr) \<Rightarrow> pyerr + pystr" where
  "json_member kv = andthen (snd kv) (\<lambda>v. Inr (json_quote (fst kv) @ ustr '': '' @ v))"

text \<open>The default separators are \<open>', '\<close> and \<open>': '\<close>. A UUID object is not serializable.\<close>

primrec json_dumps :: "pyval \<Rightarrow> pyerr + pystr" where
  "json_dumps PNone = Inr (ustr ''null'')"
| "json_dumps (PBool b) = Inr (if b then ustr ''true'' else ustr ''false'')"
| "json_dumps (PInt i) = Inr (str_of_int i)"
| "json_dumps (PStr s) = Inr (json_quote s)"
| "json_dumps (PUUID u) = Inl TypeError"
| "json_dumps (PList xs) =
     andthen (collect (map json_dumps xs)) (\<lambda>items.
     Inr (ustr ''['' @ join (ustr '', '') items @ ustr '']''))"
| "json_dumps (PDict kvs) =
     andthen (collect (map json_member (map (map_prod id json_dumps) kvs))) (\<lambda>members.
     Inr (ustr ''{'' @ join (ustr '', '') members @ ustr ''}''))"


section \<open>json_md.py\<close>

text \<open>A triple-quoted template: every line of it ends with a line feed.\<close>

definition lines_text :: "string list \<Rightarrow> pystr" where
  "lines_text ls = concat (map (\<lambda>l. ustr l @ [10]) ls)"

subsection \<open>create_md_file\<close>

definition main_task_template :: pystr where
  "main_task_template = lines_text
     [''# Summary'',
      ''{summary}'',
      ''## Description'',
      ''{description}'',
      ''## Task Info'',
      ''* Status: {status}'',
      ''* Updated: {updated}'',
      ''* Issuetype: {issuetype}'',
      ''## Labels'',
      ''{labels}'',
      ''## Market Affected Field Name'',
      ''{marketAffectedFieldName}'',
      ''## Acceptance Criteria Field Name'',
      ''{acceptanceCriteriaFieldName}'',
      ''---'']"

definition attachment_template :: pystr where
  "attachment_template = lines_text
     [''{file_name}'',
      ''* ID: {file_id}'',
      ''* Created: {created}'',
      ''* File Size: {size}'',
      ''* Download URL: {url}'',
      ''---'']"

definition sub_tasks_template :: pystr where
  "sub_tasks_template = lines_text
     [''{summary}'',
      ''* Key: {key}'',
      ''* URL: {url}'',
      ''---'']"

text \<open>The loop \<open>for x in xs: md_content += f(x)\<close>.\<close>

fun append_blocks :: "(pyval \<Rightarrow> pyerr + pystr) \<Rightarrow> pystr \<Rightarrow> pyval list \<Rightarrow> pyerr + pystr" where
  "append_blocks f md_content [] = Inr md_content"
| "append_blocks f md_content (x # xs) =
     andthen (f x) (\<lambda>block. append_blocks f (md_content @ block) xs)"

definition create_md_file ::
  "(pyval \<Rightarrow> pystr) \<Rightarrow> pyval \<Rightarrow> pyval \<Rightarrow> pyval \<Rightarrow> pyerr + pystr" where
  "create_md_file repr md_dict attach_list sub_task_list =
     andthen (py_format repr main_task_template md_dict) (\<lambda>md_content.
     andthen (if py_truthy attach_list
              then andthen (py_iter attach_list)
                     (append_blocks (py_format repr attachment_template)
                        (md_content @ lines_text [''## Attachment'']))
              else Inr md_content) (\<lambda>md_content.
     andthen (if py_truthy sub_task_list
              then andthen (py_iter sub_task_list)
                     (append_blocks (py_format repr sub_tasks_template)
                        (md_content @ lines_text [''## Sub Tasks'']))
              else Inr md_content) (\<lambda>md_content.
     Inr md_content)))"

subsection \<open>create_meta_file\<close>

text \<open>
  The keyword arguments of a call: \<open>None\<close> for a parameter the caller omits, which then takes
  the default of the signature.
\<close>

record meta_args =
  level :: "pyval option"
  title :: "pyval option"
  file_name :: "pyval option"
  file_record_id :: "pyval option"
  file_original_name :: "pyval option"
  file_original_path :: "pyval option"
  source :: "pyval option"
  value_stream :: "pyval option"
  categories :: "pyval option"
  parent_file_name :: "pyval option"
  attachment_type :: "pyval option"
  owner :: "pyval option"

definition no_args :: meta_args where
  "no_args = \<lparr>level = None, title = None, file_name = None, file_record_id = None,
     file_original_name = None, file_original_path = None, source = None,
     value_stream = None, categories = None, parent_file_name = None,
     attachment_type = None, owner = None\<rparr>"

definition arg_or :: "pyval \<Rightarrow> pyval option \<Rightarrow> pyval" where
  "arg_or dflt a = (case a of None \<Rightarrow> dflt | Some v \<Rightarrow> v)"

definition meta_content :: "meta_args \<Rightarrow> pyval" where
  "meta_content a = PDict
     [(ustr ''level'', arg_or (PInt 0) (level a)),
      (ustr ''title'', arg_or PNone (title a)),
      (ustr ''file_name'', arg_or PNone (file_name a)),
      (ustr ''file_record_id'', arg_or PNone (file_record_id a)),
      (ustr ''file_original_name'', arg_or PNone (file_original_name a)),
      (ustr ''file_original_path'', arg_or PNone (file_original_path a)),
      (ustr ''source'', arg_or PNone (source a)),
      (ustr ''value_stream'', arg_or PNone (value_stream a)),
      (ustr ''categories'', arg_or PNone (categories a)),
      (ustr ''parent_file_name'', arg_or PNone (parent_file_name a)),
      (ustr ''attachment_type'', arg_or (PStr (ustr ''file'')) (attachment_type a)),
      (ustr ''owner'', arg_or PNone (owner a))]"

definition create_meta_file :: "meta_args \<Rightarrow> pyerr + pystr" where
  "create_meta_file a = json_dumps (meta_content a)"

subsection \<open>proc_task\<close>

text \<open>Lines 77 to 80: the main task is the first issue, or the document itself.\<close>

definition main_task_of :: "pyval \<Rightarrow> bool \<Rightarrow> pyerr + pyval" where
  "main_task_of json_result is_main_task =
     (if is_main_task
      then andthen (py_getitem json_result (PStr (ustr ''issues''))) (\<lambda>issues.
           py_getitem issues (PInt 0))
      else Inr json_result)"

text \<open>Line 86.\<close>

definition labels_str_of :: "pyval \<Rightarrow> pyerr + pystr" where
  "labels_str_of task_fields =
     andthen (py_getitem task_fields (PStr (ustr ''labels''))) (str_join (ustr '', ''))"

text \<open>Line 87.\<close>

definition desc_of :: "pyval \<Rightarrow> pyerr + pystr" where
  "desc_of task_fields =
     andthen (py_getitem task_fields (PStr (ustr ''description''))) (\<lambda>d.
     andthen (nonblank_lines d) (\<lambda>ls.
     Inr (join (ustr '' '') ls)))"

text \<open>Lines 88 to 91.\<close>

definition acfn_of :: "pyval \<Rightarrow> pyerr + pystr" where
  "acfn_of task_fields =
     andthen (py_getitem task_fields (PStr (ustr ''customfield_27708''))) (\<lambda>c.
     if py_truthy c
     then andthen (py_getitem task_fields (PStr (ustr ''customfield_27708''))) (\<lambda>c.
          andthen (nonblank_lines c) (\<lambda>ls.
          Inr (join [10] ls)))
     else Inr [])"

text \<open>Lines 92 to 95.\<close>

definition mafn_of :: "pyval \<Rightarrow> pyerr + pyval" where
  "mafn_of task_fields =
     andthen (py_getitem task_fields (PStr (ustr ''customfield_26615''))) (\<lambda>c.
     if py_truthy c
     then andthen (py_getitem task_fields (PStr (ustr ''customfield_26615''))) (\<lambda>c.
          andthen (py_getitem c (PInt 0)) (\<lambda>first.
          py_getitem first (PStr (ustr ''value''))))
     else Inr (PStr []))"

text \<open>Lines 99 and 101: \<open>fields[k]['name']\<close>.\<close>

definition name_of :: "pyval \<Rightarrow> pystr \<Rightarrow> pyerr + pyval" where
  "name_of task_fields k =
     andthen (py_getitem task_fields (PStr k)) (\<lambda>x. py_getitem x (PStr (ustr ''name'')))"

text \<open>Lines 86 to 105: the flat mapping of the main task.\<close>

definition md_dict_of :: "pyval \<Rightarrow> pyerr + pyval" where
  "md_dict_of task_fields =
     andthen (labels_str_of task_fields) (\<lambda>labels_str.
     andthen (desc_of task_fields) (\<lambda>desc.
     andthen (acfn_of task_fields) (\<lambda>acfn.
     andthen (mafn_of task_fields) (\<lambda>mafn.
     andthen (py_getitem task_fields (PStr (ustr ''summary''))) (\<lambda>summary.
     andthen (name_of task_fields (ustr ''status'')) (\<lambda>status.
     andthen (py_getitem task_fields (PStr (ustr ''updated''))) (\<lambda>updated.
     andthen (name_of task_fields (ustr ''issuetype'')) (\<lambda>issuetype.
     Inr (PDict
       [(ustr ''summary'', summary),
        (ustr ''description'', PStr desc),
        (ustr ''status'', status),
        (ustr ''updated'', updated),
        (ustr ''issuetype'', issuetype),
        (ustr ''labels'', PStr labels_str),
        (ustr ''marketAffectedFieldName'', mafn),
        (ustr ''acceptanceCriteriaFieldName'', PStr acfn)])))))))))"

text \<open>Line 109: the mapping built for one attachment record.\<close>

definition attach_entry :: "pyval \<Rightarrow> pyerr + pyval" where
  "attach_entry info =
     andthen (py_getitem info (PStr (ustr ''id''))) (\<lambda>file_id.
     andthen (py_getitem info (PStr (ustr ''filename''))) (\<lambda>fname.
     andthen (py_getitem info (PStr (ustr ''created''))) (\<lambda>created.
     andthen (py_getitem info (PStr (ustr ''size''))) (\<lambda>size.
     andthen (py_getitem info (PStr (ustr ''content''))) (\<lambda>url.
     Inr (PDict
       [(ustr ''file_id'', file_id),
        (ustr ''file_name'', fname),
        (ustr ''created'', created),
        (ustr ''size'', size),
        (ustr ''url'', url)]))))))"

text \<open>Lines 108 to 111.\<close>

definition attach_list_of :: "pyval \<Rightarrow> pyerr + pyval" where
  "attach_list_of task_fields =
     andthen (py_getitem task_fields (PStr (ustr ''attachment''))) (\<lambda>a.
     if py_truthy a
     then andthen (py_getitem task_fields (PStr (ustr ''attachment''))) (\<lambda>a.
          andthen (py_iter a) (\<lambda>infos.
          andthen (collect (map attach_entry infos)) (\<lambda>entries.
          Inr (PList entries))))
     else Inr (PList []))"

text \<open>Lines 118 to 122: the mapping built for one further issue.\<close>

definition sub_task_entry :: "pyval \<Rightarrow> pyerr + pyval" where
  "sub_task_entry sub_task =
     andthen (andthen (py_getitem sub_task (PStr (ustr ''fields''))) (\<lambda>f.
              py_getitem f (PStr (ustr ''summary'')))) (\<lambda>summary.
     andthen (py_getitem sub_task (PStr (ustr ''key''))) (\<lambda>k.
     andthen (py_getitem sub_task (PStr (ustr ''self''))) (\<lambda>url.
     Inr (PDict
       [(ustr ''summary'', summary),
        (ustr ''key'', k),
        (ustr ''url'', url)]))))"

text \<open>
  Lines 114 to 123. The list is read from \<open>json_result['issues']\<close> whatever
  \<open>is_main_task\<close> is.
\<close>

definition sub_task_list_of :: "pyval \<Rightarrow> pyerr + pyval" where
  "sub_task_list_of json_result =
     andthen (py_getitem json_result (PStr (ustr ''issues''))) (\<lambda>issues.
     andthen (py_len issues) (\<lambda>n.
     if 1 < n
     then andthen (py_getitem json_result (PStr (ustr ''issues''))) (\<lambda>issues.
          andthen (py_slice_from1 issues) (\<lambda>rest.
          andthen (py_iter rest) (\<lambda>subs.
          andthen (collect (map sub_task_entry subs)) (\<lambda>entries.
          Inr (PList entries)))))
     else Inr (PList [])))"

text \<open>Lines 129 to 142. The arguments are evaluated before the call.\<close>

definition main_meta_of :: "pyval \<Rightarrow> pyval \<Rightarrow> pyval \<Rightarrow> pyval \<Rightarrow> pyerr + pystr" where
  "main_meta_of md_dict md_file_name record_id main_task =
     andthen (py_getitem md_dict (PStr (ustr ''summary''))) (\<lambda>t.
     andthen (py_getitem md_dict (PStr (ustr ''summary''))) (\<lambda>orig_name.
     andthen (andthen (py_getitem main_task (PStr (ustr ''self''))) (\<lambda>self.
              andthen (py_add self (PStr (ustr ''/''))) (\<lambda>p.
              py_add p md_file_name))) (\<lambda>orig_path.
     create_meta_file
       \<lparr>level = Some (PInt 0),
        title = Some t,
        file_name = Some md_file_name,
        file_record_id = Some record_id,
        file_original_name = Some orig_name,
        file_original_path = Some orig_path,
        source = Some (PStr (ustr ''jira-iwpb'')),
        value_stream = Some (PStr []),
        categories = Some (PStr []),
        parent_file_name = Some PNone,
        attachment_type = Some (PStr (ustr ''file'')),
        owner = Some (PStr [])\<rparr>)))"

text \<open>
  Lines 77 to 143: the body of \<open>proc_task\<close> after lines 75 and 76, as a function of the two
  locals those lines bind.
\<close>

definition proc_task_body ::
  "(pyval \<Rightarrow> pystr) \<Rightarrow> pyval \<Rightarrow> pyval \<Rightarrow> pyval \<Rightarrow> bool \<Rightarrow> pyerr + pystr \<times> pystr \<times> pyval" where
  "proc_task_body repr md_file_name record_id json_result is_main_task =
     andthen (main_task_of json_result is_main_task) (\<lambda>main_task.
     andthen (py_getitem main_task (PStr (ustr ''fields''))) (\<lambda>fields.
     andthen (py_getitem main_task (PStr (ustr ''key''))) (\<lambda>fname.
     andthen (md_dict_of fields) (\<lambda>md_dict.
     andthen (attach_list_of fields) (\<lambda>attach_list.
     andthen (sub_task_list_of json_result) (\<lambda>sub_task_list.
     andthen (create_md_file repr md_dict attach_list sub_task_list) (\<lambda>main_md_content.
     andthen (main_meta_of md_dict md_file_name record_id main_task) (\<lambda>main_meta_content.
     Inr (main_md_content, main_meta_content, fname)))))))))"

text \<open>
  \<open>proc_task\<close>. Line 75 binds \<open>record_id\<close> to the UUID object \<open>uuid4()\<close> returns; \<open>u\<close> is the
  integer it drew. Line 76 adds the string \<open>'.md'\<close> to that object.
\<close>

definition proc_task ::
  "(pyval \<Rightarrow> pystr) \<Rightarrow> nat \<Rightarrow> pyval \<Rightarrow> bool \<Rightarrow> pyerr + pystr \<times> pystr \<times> pyval" where
  "proc_task repr u json_result is_main_task =
     (let record_id = PUUID u in
      andthen (py_add record_id (PStr (ustr ''.md''))) (\<lambda>md_file_name.
      proc_task_body repr md_file_name record_id json_result is_main_task))"


text \<open>\<open>proc\<close>: the entry point calls \<open>proc_task\<close> and drops what it returns.\<close>

definition proc :: "(pyval \<Rightarrow> pystr) \<Rightarrow> nat \<Rightarrow> pyval \<Rightarrow> pyerr + pyval" where
  "proc repr u json_result =
     andthen (proc_task repr u json_result True) (\<lambda>result. Inr PNone)"

section \<open>Example documents\<close>

definition pstr :: "string \<Rightarrow> pyval" where
  "pstr s = PStr (ustr s)"

text \<open>No list, dict or UUID object is formatted in the examples.\<close>

definition no_repr :: "pyval \<Rightarrow> pystr" where
  "no_repr v = []"

definition ex_attachment :: pyval where
  "ex_attachment = PDict
     [(ustr ''id'', pstr ''1''),
      (ustr ''filename'', pstr ''f.png''),
      (ustr ''created'', pstr ''2024-01-01''),
      (ustr ''size'', PInt 100),
      (ustr ''content'', pstr ''http://x'')]"

definition ex_fields :: pyval where
  "ex_fields = PDict
     [(ustr ''summary'', pstr ''Fix login''),
      (ustr ''description'', PStr (ustr ''line1'' @ [10, 10] @ ustr ''line2'' @ [10, 32])),
      (ustr ''status'', PDict [(ustr ''name'', pstr ''Open'')]),
      (ustr ''updated'', pstr ''2024-01-02''),
      (ustr ''issuetype'', PDict [(ustr ''name'', pstr ''Story'')]),
      (ustr ''labels'', PList [pstr ''a'', pstr ''b'']),
      (ustr ''customfield_27708'', PStr (ustr ''AC1'' @ [10, 10] @ ustr ''AC2'')),
      (ustr ''customfield_26615'', PList [PDict [(ustr ''value'', pstr ''HK'')]]),
      (ustr ''attachment'', PList [ex_attachment])]"

definition ex_issue :: "pyval \<Rightarrow> pyval" where
  "ex_issue task_fields = PDict
     [(ustr ''fields'', task_fields),
      (ustr ''key'', pstr ''K-1''),
      (ustr ''self'', pstr ''http://j/1'')]"

definition ex_main :: pyval where
  "ex_main = ex_issue ex_fields"

definition ex_sub :: pyval where
  "ex_sub = PDict
     [(ustr ''fields'', PDict [(ustr ''summary'', pstr ''Sub'')]),
      (ustr ''key'', pstr ''K-2''),
      (ustr ''self'', pstr ''http://j/2'')]"

definition ex_doc_of :: "pyval \<Rightarrow> pyval" where
  "ex_doc_of main = PDict [(ustr ''issues'', PList [main, ex_sub])]"

definition ex_doc :: pyval where
  "ex_doc = ex_doc_of ex_main"

text \<open>A record without one of its keys.\<close>

fun del_key :: "pystr \<Rightarrow> pyval \<Rightarrow> pyval" where
  "del_key k (PDict kvs) = PDict (filter (\<lambda>kv. fst kv \<noteq> k) kvs)"
| "del_key k v = v"

text \<open>A record with one of its values replaced.\<close>

fun set_key :: "pystr \<Rightarrow> pyval \<Rightarrow> pyval \<Rightarrow> pyval" where
  "set_key k v (PDict kvs) = PDict (map (\<lambda>kv. if fst kv = k then (k, v) else kv) kvs)"
| "set_key k v d = d"

text \<open>A field record whose values are all None.\<close>

definition ex_null_fields :: pyval where
  "ex_null_fields = PDict
     [(ustr ''customfield_27708'', PNone),
      (ustr ''customfield_26615'', PNone),
      (ustr ''attachment'', PNone),
      (ustr ''description'', PNone),
      (ustr ''labels'', PNone),
      (ustr ''status'', PNone)]"

section \<open>The derivation rules in the specification's words\<close>

text \<open>
  "Split on line breaks": the text is cut at every line-break character, so a text with
  \<open>n\<close> such characters has \<open>n + 1\<close> pieces, some of them possibly empty.
\<close>

fun split_at :: "(nat \<Rightarrow> bool) \<Rightarrow> pystr \<Rightarrow> pystr list" where
  "split_at p [] = [[]]"
| "split_at p (c # cs) =
     (if p c then [] # split_at p cs
      else (case split_at p cs of
              [] \<Rightarrow> [[c]]
            | l # ls \<Rightarrow> (c # l) # ls))"

text \<open>"Blank or whitespace-only": a line with no character that is not white space.\<close>

definition whitespace_only :: "pystr \<Rightarrow> bool" where
  "whitespace_only l = list_all is_space l"

text \<open>"Split on line breaks, drop blank lines": the lines that are kept.\<close>

definition kept_lines :: "pystr \<Rightarrow> pystr list" where
  "kept_lines s = filter (\<lambda>l. \<not> whitespace_only l) (split_at is_linebreak s)"

section \<open>Well-formed arguments of the report renderer\<close>

text \<open>A mapping that carries every keyword a template names.\<close>

fun has_keys :: "pystr list \<Rightarrow> pyval \<Rightarrow> bool" where
  "has_keys ks (PDict kvs) = list_all (\<lambda>k. map_of kvs k \<noteq> None) ks"
| "has_keys ks v = False"

definition main_keys :: "pystr list" where
  "main_keys = map ustr
     [''summary'', ''description'', ''status'', ''updated'', ''issuetype'', ''labels'',
      ''marketAffectedFieldName'', ''acceptanceCriteriaFieldName'']"

definition attachment_keys :: "pystr list" where
  "attachment_keys = map ustr [''file_name'', ''file_id'', ''created'', ''size'', ''url'']"

definition sub_task_keys :: "pystr list" where
  "sub_task_keys = map ustr [''summary'', ''key'', ''url'']"

text \<open>Whether a text occurs in another, and in the report a call returned.\<close>

fun contains_text :: "pystr \<Rightarrow> pystr \<Rightarrow> bool" where
  "contains_text needle [] = (needle = [])"
| "contains_text needle (c # cs) =
     (take (length needle) (c # cs) = needle \<or> contains_text needle cs)"

fun report_contains :: "pystr \<Rightarrow> pyerr + pystr \<Rightarrow> bool" where
  "report_contains needle (Inr report) = contains_text needle report"
| "report_contains needle (Inl e) = False"

text \<open>A flat mapping with a given summary, and one entry of each list.\<close>

definition ex_md_dict :: "pystr \<Rightarrow> pyval" where
  "ex_md_dict summary = PDict
     [(ustr ''summary'', PStr summary),
      (ustr ''description'', pstr ''d''),
      (ustr ''status'', pstr ''Open''),
      (ustr ''updated'', pstr ''2024-01-02''),
      (ustr ''issuetype'', pstr ''Story''),
      (ustr ''labels'', pstr ''a, b''),
      (ustr ''marketAffectedFieldName'', PStr []),
      (ustr ''acceptanceCriteriaFieldName'', PStr [])]"

definition ex_attach_entry :: pyval where
  "ex_attach_entry = PDict
     [(ustr ''file_id'', pstr ''1''),
      (ustr ''file_name'', pstr ''f.png''),
      (ustr ''created'', pstr ''2024-01-01''),
      (ustr ''size'', PInt 100),
      (ustr ''url'', pstr ''http://x'')]"

definition ex_sub_entry :: pyval where
  "ex_sub_entry = PDict
     [(ustr ''summary'', pstr ''Sub''),
      (ustr ''key'', pstr ''K-2''),
      (ustr ''url'', pstr ''http://j/2'')]"

section \<open>Required fields and the shape of a document\<close>

text \<open>The fields the claims call required, each with the key whose absence is at stake.\<close>

datatype required_field =
    ReqSummary | ReqDescription | ReqStatusName | ReqUpdated | ReqIssuetypeName
  | ReqLabels | ReqKey | ReqSelf | ReqAttachment

fun field_key :: "required_field \<Rightarrow> pystr" where
  "field_key ReqSummary = ustr ''summary''"
| "field_key ReqDescription = ustr ''description''"
| "field_key ReqStatusName = ustr ''name''"
| "field_key ReqUpdated = ustr ''updated''"
| "field_key ReqIssuetypeName = ustr ''name''"
| "field_key ReqLabels = ustr ''labels''"
| "field_key ReqKey = ustr ''key''"
| "field_key ReqSelf = ustr ''self''"
| "field_key ReqAttachment = ustr ''attachment''"

text \<open>Reading a required field from the main task, by the subscripts the program uses.\<close>

definition in_fields :: "pyval \<Rightarrow> (pyval \<Rightarrow> pyerr + pyval) \<Rightarrow> pyerr + pyval" where
  "in_fields main_task rd = andthen (py_getitem main_task (PStr (ustr ''fields''))) rd"

fun field_read :: "required_field \<Rightarrow> pyval \<Rightarrow> pyerr + pyval" where
  "field_read ReqSummary m = in_fields m (\<lambda>f. py_getitem f (PStr (ustr ''summary'')))"
| "field_read ReqDescription m = in_fields m (\<lambda>f. py_getitem f (PStr (ustr ''description'')))"
| "field_read ReqStatusName m = in_fields m (\<lambda>f. name_of f (ustr ''status''))"
| "field_read ReqUpdated m = in_fields m (\<lambda>f. py_getitem f (PStr (ustr ''updated'')))"
| "field_read ReqIssuetypeName m = in_fields m (\<lambda>f. name_of f (ustr ''issuetype''))"
| "field_read ReqLabels m = in_fields m (\<lambda>f. py_getitem f (PStr (ustr ''labels'')))"
| "field_read ReqKey m = py_getitem m (PStr (ustr ''key''))"
| "field_read ReqSelf m = py_getitem m (PStr (ustr ''self''))"
| "field_read ReqAttachment m = in_fields m (\<lambda>f. py_getitem f (PStr (ustr ''attachment'')))"

text \<open>
  The task record of the specification's data model, as a predicate on documents.
  \<open>doc_shape None\<close> holds of a document with every field present and of its type;
  \<open>doc_shape (Some fld)\<close> holds of a document that lacks the key of \<open>fld\<close> and is
  well-formed otherwise.
\<close>

fun is_pstr :: "pyval \<Rightarrow> bool" where
  "is_pstr (PStr s) = True"
| "is_pstr v = False"

fun labels_ok :: "pyval \<Rightarrow> bool" where
  "labels_ok (PList ls) = list_all is_pstr ls"
| "labels_ok v = False"

fun text_or_none :: "pyval \<Rightarrow> bool" where
  "text_or_none PNone = True"
| "text_or_none (PStr s) = True"
| "text_or_none v = False"

fun market_ok :: "pyval \<Rightarrow> bool" where
  "market_ok PNone = True"
| "market_ok (PList []) = True"
| "market_ok (PList (PDict d # rest)) = (map_of d (ustr ''value'') \<noteq> None)"
| "market_ok v = False"

fun attachments_ok :: "pyval \<Rightarrow> bool" where
  "attachments_ok PNone = True"
| "attachments_ok (PList infos) =
     list_all (has_keys (map ustr [''id'', ''filename'', ''created'', ''size'', ''content''])) infos"
| "attachments_ok v = False"

definition anything :: "pyval \<Rightarrow> bool" where
  "anything v = True"

fun holds :: "(pyval \<Rightarrow> bool) \<Rightarrow> pyval option \<Rightarrow> bool" where
  "holds ok None = False"
| "holds ok (Some v) = ok v"

definition present ::
  "required_field option \<Rightarrow> required_field \<Rightarrow> (pyval \<Rightarrow> bool) \<Rightarrow> pyval option \<Rightarrow> bool" where
  "present miss fld ok v = (if miss = Some fld then v = None else holds ok v)"

fun named :: "required_field option \<Rightarrow> required_field \<Rightarrow> pyval option \<Rightarrow> bool" where
  "named miss fld (Some (PDict d)) = present miss fld anything (map_of d (ustr ''name''))"
| "named miss fld v = False"

fun fields_shape :: "required_field option \<Rightarrow> pyval \<Rightarrow> bool" where
  "fields_shape miss (PDict kvs) =
     (present miss ReqLabels labels_ok (map_of kvs (ustr ''labels'')) \<and>
      present miss ReqDescription is_pstr (map_of kvs (ustr ''description'')) \<and>
      holds text_or_none (map_of kvs (ustr ''customfield_27708'')) \<and>
      holds market_ok (map_of kvs (ustr ''customfield_26615'')) \<and>
      present miss ReqSummary is_pstr (map_of kvs (ustr ''summary'')) \<and>
      named miss ReqStatusName (map_of kvs (ustr ''status'')) \<and>
      present miss ReqUpdated anything (map_of kvs (ustr ''updated'')) \<and>
      named miss ReqIssuetypeName (map_of kvs (ustr ''issuetype'')) \<and>
      present miss ReqAttachment attachments_ok (map_of kvs (ustr ''attachment'')))"
| "fields_shape miss v = False"

fun sub_issue_ok :: "pyval \<Rightarrow> bool" where
  "sub_issue_ok (PDict kvs) =
     (has_keys [ustr ''summary''] (case map_of kvs (ustr ''fields'') of None \<Rightarrow> PNone | Some f \<Rightarrow> f) \<and>
      map_of kvs (ustr ''key'') \<noteq> None \<and>
      map_of kvs (ustr ''self'') \<noteq> None)"
| "sub_issue_ok v = False"

fun main_shape :: "required_field option \<Rightarrow> pyval \<Rightarrow> bool" where
  "main_shape miss (PDict kvs) =
     (fields_shape miss (case map_of kvs (ustr ''fields'') of None \<Rightarrow> PNone | Some f \<Rightarrow> f) \<and>
      present miss ReqKey anything (map_of kvs (ustr ''key'')) \<and>
      present miss ReqSelf is_pstr (map_of kvs (ustr ''self'')))"
| "main_shape miss v = False"

fun issues_shape :: "required_field option \<Rightarrow> pyval option \<Rightarrow> bool" where
  "issues_shape miss (Some (PList (m # subs))) = (main_shape miss m \<and> list_all sub_issue_ok subs)"
| "issues_shape miss v = False"

fun doc_shape :: "required_field option \<Rightarrow> pyval \<Rightarrow> bool" where
  "doc_shape miss (PDict kvs) = issues_shape miss (map_of kvs (ustr ''issues''))"
| "doc_shape miss v = False"

section \<open>Decoding the metadata text\<close>

text \<open>
  \<open>json.loads\<close>, for the documents the metadata renderer writes: one object whose members
  are null, booleans, integers and strings. A number with a fraction or an exponent, a
  nested container and a document that is not an object are outside this reader and give
  \<open>None\<close>, as every malformed text does. An escape \<open>\uXXXX\<close> is read as the one code unit it
  names.
\<close>

definition unhex :: "nat \<Rightarrow> nat option" where
  "unhex c =
     (if 48 \<le> c \<and> c \<le> 57 then Some (c - 48)
      else if 97 \<le> c \<and> c \<le> 102 then Some (c - 87)
      else if 65 \<le> c \<and> c \<le> 70 then Some (c - 55)
      else None)"

fun unhex4 :: "pystr \<Rightarrow> (nat \<times> pystr) option" where
  "unhex4 (h1 # h2 # h3 # h4 # rest) =
     (case (unhex h1, unhex h2, unhex h3, unhex h4) of
        (Some a, Some b, Some c, Some d) \<Rightarrow> Some (((a * 16 + b) * 16 + c) * 16 + d, rest)
      | _ \<Rightarrow> None)"
| "unhex4 s = None"

text \<open>The character a one-letter escape stands for.\<close>

definition simple_escape :: "nat \<Rightarrow> nat option" where
  "simple_escape e =
     (if e = 34 then Some 34
      else if e = 92 then Some 92
      else if e = 47 then Some 47
      else if e = 98 then Some 8
      else if e = 102 then Some 12
      else if e = 110 then Some 10
      else if e = 114 then Some 13
      else if e = 116 then Some 9
      else None)"

text \<open>
  The body of a string, after its opening quote: the text up to the closing quote, with the
  escapes resolved, and what follows. A raw control character is refused.
\<close>

function read_string :: "pystr \<Rightarrow> pystr \<Rightarrow> (pystr \<times> pystr) option" where
  "read_string acc [] = None"
| "read_string acc (c # cs) =
     (if c = 34 then Some (rev acc, cs)
      else if c = 92 then
        (case cs of
           [] \<Rightarrow> None
         | e # es \<Rightarrow>
             if e = 117 then
               (case unhex4 es of
                  None \<Rightarrow> None
                | Some (u, rest) \<Rightarrow> read_string (u # acc) rest)
             else
               (case simple_escape e of
                  None \<Rightarrow> None
                | Some x \<Rightarrow> read_string (x # acc) es))
      else if c < 32 then None
      else read_string (c # acc) cs)"
  by pat_completeness auto

termination
proof (relation "measure (\<lambda>(acc, s). length s)")
  fix acc :: pystr and c cs e es x2 u rest
  assume "cs = e # es" "unhex4 es = Some x2" "(u, rest) = x2"
  then have "length rest \<le> length es"
    by (cases es rule: unhex4.cases) (auto split: option.splits)
  then show "((u # acc, rest), (acc, c # cs)) \<in> measure (\<lambda>(acc, s). length s)"
    using \<open>cs = e # es\<close> by simp
qed auto

definition is_digit :: "nat \<Rightarrow> bool" where
  "is_digit c \<longleftrightarrow> 48 \<le> c \<and> c \<le> 57"

fun nat_of_digits :: "nat \<Rightarrow> pystr \<Rightarrow> nat" where
  "nat_of_digits n [] = n"
| "nat_of_digits n (d # ds) = nat_of_digits (n * 10 + (d - 48)) ds"

text \<open>
  An integer: an optional minus sign and digits with no leading zero. What follows must not
  turn it into a fraction or an exponent.
\<close>

definition read_digits :: "pystr \<Rightarrow> (nat \<times> pystr) option" where
  "read_digits s =
     (let ds = takeWhile is_digit s; rest = dropWhile is_digit s
      in if ds = [] \<or> (1 < length ds \<and> take 1 ds = [48]) \<or> take 1 rest \<in> {[46], [101], [69]}
         then None
         else Some (nat_of_digits 0 ds, rest))"

fun read_int :: "pystr \<Rightarrow> (int \<times> pystr) option" where
  "read_int [] = None"
| "read_int (c # cs) =
     (if c = 45 then map_option (\<lambda>(n, rest). (- int n, rest)) (read_digits cs)
      else map_option (\<lambda>(n, rest). (int n, rest)) (read_digits (c # cs)))"

definition read_value :: "pystr \<Rightarrow> (pyval \<times> pystr) option" where
  "read_value s =
     (if take 4 s = ustr ''null'' then Some (PNone, drop 4 s)
      else if take 4 s = ustr ''true'' then Some (PBool True, drop 4 s)
      else if take 5 s = ustr ''false'' then Some (PBool False, drop 5 s)
      else if take 1 s = [34] then
        map_option (\<lambda>(str, rest). (PStr str, rest)) (read_string [] (drop 1 s))
      else map_option (\<lambda>(i, rest). (PInt i, rest)) (read_int s))"

definition skip_ws :: "pystr \<Rightarrow> pystr" where
  "skip_ws s = dropWhile (\<lambda>c. c \<in> {32, 9, 10, 13}) s"

text \<open>One member \<open>"key": value\<close> and the text after it.\<close>

definition read_member :: "pystr \<Rightarrow> ((pystr \<times> pyval) \<times> pystr) option" where
  "read_member s =
     (case skip_ws s of
        [] \<Rightarrow> None
      | q # r1 \<Rightarrow>
          if q \<noteq> 34 then None
          else (case read_string [] r1 of
                  None \<Rightarrow> None
                | Some (k, r2) \<Rightarrow>
                    (case skip_ws r2 of
                       [] \<Rightarrow> None
                     | colon # r3 \<Rightarrow>
                         if colon \<noteq> 58 then None
                         else (case read_value (skip_ws r3) of
                                 None \<Rightarrow> None
                               | Some (v, r4) \<Rightarrow> Some ((k, v), skip_ws r4)))))"

text \<open>
  The members up to the closing brace. The fuel bounds the number of members read; a text
  has fewer members than characters.
\<close>

fun read_members :: "nat \<Rightarrow> pystr \<Rightarrow> ((pystr \<times> pyval) list \<times> pystr) option" where
  "read_members 0 s = None"
| "read_members (Suc fuel) s =
     (case read_member s of
        None \<Rightarrow> None
      | Some (kv, r) \<Rightarrow>
          (case r of
             [] \<Rightarrow> None
           | d # r' \<Rightarrow>
               if d = 125 then Some ([kv], r')
               else if d = 44 then
                 map_option (\<lambda>(kvs, rest). (kv # kvs, rest)) (read_members fuel r')
               else None))"

text \<open>A dict built from pairs: a repeated key keeps its place and takes the later value.\<close>

fun dict_put :: "pystr \<Rightarrow> pyval \<Rightarrow> (pystr \<times> pyval) list \<Rightarrow> (pystr \<times> pyval) list" where
  "dict_put k v [] = [(k, v)]"
| "dict_put k v (kv # kvs) = (if fst kv = k then (k, v) # kvs else kv # dict_put k v kvs)"

definition dict_of_pairs :: "(pystr \<times> pyval) list \<Rightarrow> (pystr \<times> pyval) list" where
  "dict_of_pairs kvs = foldl (\<lambda>d kv. dict_put (fst kv) (snd kv) d) [] kvs"

definition json_loads :: "pystr \<Rightarrow> pyval option" where
  "json_loads s =
     (case skip_ws s of
        [] \<Rightarrow> None
      | b # r \<Rightarrow>
          if b \<noteq> 123 then None
          else if take 1 (skip_ws r) = [125] then
            (if skip_ws (drop 1 (skip_ws r)) = [] then Some (PDict []) else None)
          else (case read_members (length r) r of
                  None \<Rightarrow> None
                | Some (kvs, rest) \<Rightarrow>
                    if skip_ws rest = [] then Some (PDict (dict_of_pairs kvs)) else None))"

text \<open>The values the claim on the metadata renderer is about, and the text they hold.\<close>

fun scalar :: "pyval \<Rightarrow> bool" where
  "scalar PNone = True"
| "scalar (PBool b) = True"
| "scalar (PInt i) = True"
| "scalar (PStr s) = True"
| "scalar v = False"

fun text_of :: "pyval \<Rightarrow> pystr" where
  "text_of (PStr s) = s"
| "text_of v = []"

fun dict_items :: "pyval \<Rightarrow> (pystr \<times> pyval) list" where
  "dict_items (PDict kvs) = kvs"
| "dict_items v = []"

text \<open>An assignment of text, in part outside ASCII, empty or absent, to the parameters.\<close>

definition ex_meta_args :: meta_args where
  "ex_meta_args =
     \<lparr>level = None,
      title = Some (PStr [0x4E2D, 0x6587, 34, 92, 10, 1, 0xE9]),
      file_name = Some (pstr ''f.md''),
      file_record_id = Some (PStr []),
      file_original_name = Some PNone,
      file_original_path = None,
      source = Some (pstr ''jira-iwpb''),
      value_stream = Some (PStr []),
      categories = Some (PStr []),
      parent_file_name = Some PNone,
      attachment_type = None,
      owner = Some (PStr [0xFC])\<rparr>"

text \<open>
  Arguments the encoder writes as scalars: each of the twelve is omitted, or is None, text,
  a bool or an integer.
\<close>

fun arg_ok :: "pyval option \<Rightarrow> bool" where
  "arg_ok None = True"
| "arg_ok (Some v) = scalar v"

definition args_ok :: "meta_args \<Rightarrow> bool" where
  "args_ok a = list_all arg_ok
     [level a, title a, file_name a, file_record_id a, file_original_name a,
      file_original_path a, source a, value_stream a, categories a, parent_file_name a,
      attachment_type a, owner a]"

text \<open>
  The arguments the claim on the metadata renderer is about: each of the twelve is omitted,
  None or text; and the text an argument holds.
\<close>

fun text_arg :: "pyval option \<Rightarrow> bool" where
  "text_arg None = True"
| "text_arg (Some v) = text_or_none v"

definition text_args :: "meta_args \<Rightarrow> bool" where
  "text_args a = list_all text_arg
     [level a, title a, file_name a, file_record_id a, file_original_name a,
      file_original_path a, source a, value_stream a, categories a, parent_file_name a,
      attachment_type a, owner a]"

fun arg_text :: "pyval option \<Rightarrow> pystr" where
  "arg_text None = []"
| "arg_text (Some v) = text_of v"

definition meta_keys :: "pystr list" where
  "meta_keys = map ustr
     [''level'', ''title'', ''file_name'', ''file_record_id'', ''file_original_name'',
      ''file_original_path'', ''source'', ''value_stream'', ''categories'',
      ''parent_file_name'', ''attachment_type'', ''owner'']"

text \<open>What may follow a value inside an object: a comma or the closing brace.\<close>

definition delimited :: "pystr \<Rightarrow> bool" where
  "delimited rest \<longleftrightarrow> take 1 rest = [44] \<or> take 1 rest = [125]"

text \<open>The encoding of a scalar and of a member, as \<open>json_dumps\<close> writes them.\<close>

definition scalar_text :: "pyval \<Rightarrow> pystr" where
  "scalar_text v = (case json_dumps v of Inl e \<Rightarrow> [] | Inr t \<Rightarrow> t)"

definition member_text :: "pystr \<times> pyval \<Rightarrow> pystr" where
  "member_text kv = json_quote (fst kv) @ ustr '': '' @ scalar_text (snd kv)"

section \<open>The orchestrator\<close>

lemmas model_defs =
  proc_task_body_def main_task_of_def md_dict_of_def name_of_def labels_str_of_def desc_of_def
  acfn_of_def mafn_of_def attach_list_of_def attach_entry_def sub_task_list_of_def
  sub_task_entry_def main_meta_of_def create_md_file_def create_meta_file_def
  meta_content_def arg_or_def str_join_def nonblank_lines_def splitlines_def strip_def
  is_space_def is_linebreak_def json_member_def json_quote_def json_escape_char_def
  hex_digit_def str_of_int_def str_of_nat.simps main_task_template_def
  attachment_template_def sub_tasks_template_def lines_text_def seq_index_def andthen_def
  ustr_def

lemmas ex_defs =
  ex_doc_def ex_doc_of_def ex_main_def ex_issue_def ex_sub_def ex_fields_def
  ex_attachment_def pstr_def no_repr_def

lemma andthen_Inr_iff:
  "andthen m f = Inr y \<longleftrightarrow> (\<exists>x. m = Inr x \<and> f x = Inr y)"
  by (cases m) (simp_all add: andthen_def)

lemma andthen_simps [simp]:
  "andthen (Inl e) f = Inl e"
  "andthen (Inr x) f = f x"
  by (simp_all add: andthen_def)

lemma collect_Inr_iff:
  "collect rs = Inr xs \<longleftrightarrow> rs = map Inr xs"
proof (induction rs arbitrary: xs)
  case Nil
  show ?case by auto
next
  case (Cons r rs)
  show ?case
  proof (cases r)
    case (Inl e)
    then show ?thesis by (cases xs) auto
  next
    case (Inr x)
    then show ?thesis using Cons.IH by (cases xs) (auto simp: andthen_Inr_iff)
  qed
qed

lemma json_dumps_uuid_member:
  "(k, PUUID u) \<in> set kvs \<Longrightarrow> json_dumps (PDict kvs) \<noteq> Inr out"
proof
  assume mem: "(k, PUUID u) \<in> set kvs" and "json_dumps (PDict kvs) = Inr out"
  then obtain members where
    "map json_member (map (map_prod id json_dumps) kvs) = map Inr members"
    by (auto simp: andthen_Inr_iff collect_Inr_iff)
  then have "\<forall>kv \<in> set kvs. \<exists>m. json_member (map_prod id json_dumps kv) = Inr m"
    by (metis (no_types, lifting) image_eqI list.set_map map_map comp_apply imageE)
  with mem obtain m where "json_member (k, Inl TypeError) = Inr m"
    by fastforce
  then show False by (simp add: json_member_def)
qed

lemma main_meta_of_uuid:
  "main_meta_of md_dict md_file_name (PUUID u) main_task \<noteq> Inr out"
proof
  assume "main_meta_of md_dict md_file_name (PUUID u) main_task = Inr out"
  then obtain a where d: "json_dumps (meta_content a) = Inr out"
    and r: "file_record_id a = Some (PUUID u)"
    by (auto simp: main_meta_of_def andthen_Inr_iff create_meta_file_def)
  obtain kvs where "meta_content a = PDict kvs"
    and "(ustr ''file_record_id'', PUUID u) \<in> set kvs"
    using r by (simp add: meta_content_def arg_or_def)
  with d show False
    using json_dumps_uuid_member by metis
qed

text \<open>
  C1. The claim: for every well-formed document \<open>proc_task\<close> returns the report text, the
  metadata text and the task key, after generating an identifier and deriving the filename
  \<open><identifier>.md\<close>. The code: line 76 adds a string to the UUID object of line 75, which
  raises TypeError for every document, so \<open>proc_task\<close> never returns; and the body, run with
  the UUID object as \<open>record_id\<close> and any filename, never returns either, because line 133
  hands that object to \<open>json.dumps\<close>.
\<close>

theorem proc_task_raises:
  "proc_task repr u json_result is_main_task = Inl TypeError \<and>
   proc_task_body repr md_file_name (PUUID u) json_result is_main_task \<noteq> Inr result"
  by (simp add: proc_task_def proc_task_body_def andthen_Inr_iff main_meta_of_uuid)

text \<open>
  C2. The claim: called with \<open>is_main_task=False\<close> on a single issue record (fields, key and
  self, no issues), the extractor yields the flat mapping and an empty sub-task list and
  \<open>proc_task\<close> returns. The code on the record \<open>ex_main\<close>: \<open>proc_task\<close> raises at line 76;
  and the body, given a string identifier, raises KeyError at line 115, which reads
  \<open>json_result['issues']\<close> on this path too.
\<close>

theorem single_issue_raises:
  "proc_task no_repr 7 ex_main False = Inl TypeError \<and>
   proc_task_body no_repr (pstr ''id.md'') (pstr ''id'') ex_main False
     = Inl (KeyError (PStr (ustr ''issues'')))"
proof
  show "proc_task no_repr 7 ex_main False = Inl TypeError"
    by (simp add: proc_task_def)
  show "proc_task_body no_repr (pstr ''id.md'') (pstr ''id'') ex_main False
     = Inl (KeyError (PStr (ustr ''issues'')))"
    by (simp add: model_defs ex_defs)
qed

text \<open>
  C8. The claim: two invocations on the same document produce the same report text while
  generating different identifiers and filenames. The code on the document \<open>ex_doc\<close> with two
  different identifiers drawn: both invocations raise at line 76, so neither produces a
  filename or a report.
\<close>

theorem two_invocations_raise:
  "proc_task no_repr 1 ex_doc True = Inl TypeError \<and>
   proc_task no_repr 2 ex_doc True = Inl TypeError"
  by (simp add: proc_task_def)

section \<open>The extractor\<close>

lemma split_at_nonempty: "split_at p s \<noteq> []"
  by (induction s) (auto split: list.splits)

lemma is_linebreak_cr_lf: "is_linebreak 13" "is_linebreak 10"
  by (simp_all add: is_linebreak_def)

lemma all_space_dropWhile:
  "(\<forall>x \<in> set (dropWhile is_space l). is_space x) \<longleftrightarrow> (\<forall>x \<in> set l. is_space x)"
proof
  assume a: "\<forall>x \<in> set (dropWhile is_space l). is_space x"
  have "dropWhile is_space l = []"
  proof (rule ccontr)
    assume ne: "dropWhile is_space l \<noteq> []"
    then have "\<not> is_space (hd (dropWhile is_space l))" by (rule hd_dropWhile)
    moreover have "hd (dropWhile is_space l) \<in> set (dropWhile is_space l)"
      using ne by simp
    ultimately show False using a by blast
  qed
  then show "\<forall>x \<in> set l. is_space x" by (simp only: dropWhile_eq_Nil_conv)
next
  assume "\<forall>x \<in> set l. is_space x"
  then show "\<forall>x \<in> set (dropWhile is_space l). is_space x"
    using set_dropWhileD by fastforce
qed

lemma strip_empty_iff: "strip l = [] \<longleftrightarrow> whitespace_only l"
  by (simp add: strip_def whitespace_only_def dropWhile_eq_Nil_conv list_all_iff
      all_space_dropWhile)

lemma kept_splitlines_from:
  "filter (\<lambda>l. \<not> whitespace_only l) (splitlines_from cur s) =
   filter (\<lambda>l. \<not> whitespace_only l)
     ((rev cur @ hd (split_at is_linebreak s)) # tl (split_at is_linebreak s))"
proof (induction cur s rule: splitlines_from.induct)
  case (1 cur)
  show ?case by (simp add: whitespace_only_def)
next
  case (2 cur c cs)
  obtain l ls where sp: "split_at is_linebreak cs = l # ls"
    using split_at_nonempty by (cases "split_at is_linebreak cs") auto
  show ?case
  proof (cases "c = 0x0D")
    case cr: True
    show ?thesis
    proof (cases cs)
      case Nil
      then show ?thesis using cr by (simp add: is_linebreak_cr_lf whitespace_only_def)
    next
      case (Cons d ds)
      obtain l' ls' where sp': "split_at is_linebreak ds = l' # ls'"
        using split_at_nonempty by (cases "split_at is_linebreak ds") auto
      show ?thesis
      proof (cases "d = 0x0A")
        case True
        then show ?thesis using cr Cons sp' 2(1) [OF cr Cons True]
          by (simp add: is_linebreak_cr_lf whitespace_only_def)
      next
        case False
        then show ?thesis using cr Cons sp 2(2) [OF cr Cons False]
          by (simp add: is_linebreak_cr_lf whitespace_only_def)
      qed
    qed
  next
    case ncr: False
    show ?thesis
    proof (cases "is_linebreak c")
      case True
      then show ?thesis using ncr sp 2(3) [OF ncr True] by (simp add: whitespace_only_def)
    next
      case False
      then show ?thesis using ncr sp 2(4) [OF ncr False] by simp
    qed
  qed
qed

lemma nonblank_lines_kept: "nonblank_lines (PStr s) = Inr (kept_lines s)"
proof -
  have "filter (\<lambda>line. strip line \<noteq> []) (splitlines s) = kept_lines s"
    using kept_splitlines_from [of "[]" s] split_at_nonempty [of is_linebreak s]
    by (simp add: strip_empty_iff splitlines_def kept_lines_def)
  then show ?thesis by (simp add: nonblank_lines_def)
qed

text \<open>
  C5. For every description text \<open>d\<close> the derived description (line 87) is the text split
  on line breaks, without its blank and whitespace-only lines, rejoined with one space;
  the description "line1", two line feeds, "line2", a line feed and a space gives
  "line1 line2".
\<close>

theorem description_joined_with_spaces:
  "(py_getitem task_fields (PStr (ustr ''description'')) = Inr (PStr d) \<longrightarrow>
      desc_of task_fields = Inr (join (ustr '' '') (kept_lines d))) \<and>
   desc_of (PDict [(ustr ''description'',
       PStr (ustr ''line1'' @ [10, 10] @ ustr ''line2'' @ [10, 32]))])
     = Inr (ustr ''line1 line2'')"
proof
  show "py_getitem task_fields (PStr (ustr ''description'')) = Inr (PStr d) \<longrightarrow>
      desc_of task_fields = Inr (join (ustr '' '') (kept_lines d))"
    by (simp add: desc_of_def nonblank_lines_kept)
  show "desc_of (PDict [(ustr ''description'',
       PStr (ustr ''line1'' @ [10, 10] @ ustr ''line2'' @ [10, 32]))])
     = Inr (ustr ''line1 line2'')"
    by (simp add: model_defs)
qed

theorem description_joined_with_spaces_witness:
  "py_getitem ex_fields (PStr (ustr ''description''))
     = Inr (PStr (ustr ''line1'' @ [10, 10] @ ustr ''line2'' @ [10, 32])) \<and>
   desc_of ex_fields
     = Inr (join (ustr '' '') (kept_lines (ustr ''line1'' @ [10, 10] @ ustr ''line2'' @ [10, 32])))"
proof -
  have "py_getitem ex_fields (PStr (ustr ''description''))
     = Inr (PStr (ustr ''line1'' @ [10, 10] @ ustr ''line2'' @ [10, 32]))"
    by (simp add: ex_defs ustr_def)
  then show ?thesis
    using description_joined_with_spaces [of ex_fields] by blast
qed

text \<open>
  C3, as the claim states it, fails where the custom field is absent: line 88 subscripts
  \<open>fields['customfield_27708']\<close>, which raises KeyError, for the field record alone and for
  a whole document processed with a string identifier.
\<close>

theorem absent_acceptance_criteria_raises:
  "acfn_of (del_key (ustr ''customfield_27708'') ex_fields)
     = Inl (KeyError (PStr (ustr ''customfield_27708''))) \<and>
   proc_task_body no_repr (pstr ''id.md'') (pstr ''id'')
       (ex_doc_of (ex_issue (del_key (ustr ''customfield_27708'') ex_fields))) True
     = Inl (KeyError (PStr (ustr ''customfield_27708'')))"
  by (simp add: model_defs ex_defs)

text \<open>
  C3, amended. The derived acceptanceCriteriaFieldName is the kept lines of the custom field
  rejoined with a line feed when the field holds non-empty text, and empty text when it
  holds empty text or None; when the key is absent from the record the derivation raises
  KeyError for that key.
\<close>

theorem acceptance_criteria_derivation:
  "(py_getitem task_fields (PStr (ustr ''customfield_27708'')) = Inr (PStr s) \<and> s \<noteq> [] \<longrightarrow>
      acfn_of task_fields = Inr (join [10] (kept_lines s))) \<and>
   (py_getitem task_fields (PStr (ustr ''customfield_27708'')) = Inr (PStr []) \<or>
    py_getitem task_fields (PStr (ustr ''customfield_27708'')) = Inr PNone \<longrightarrow>
      acfn_of task_fields = Inr []) \<and>
   (map_of kvs (ustr ''customfield_27708'') = None \<longrightarrow>
      acfn_of (PDict kvs) = Inl (KeyError (PStr (ustr ''customfield_27708''))))"
  by (auto simp: acfn_of_def nonblank_lines_kept)

theorem acceptance_criteria_derivation_witness:
  "acfn_of ex_fields = Inr (join [10] (kept_lines (ustr ''AC1'' @ [10, 10] @ ustr ''AC2''))) \<and>
   acfn_of (PDict [(ustr ''customfield_27708'', PNone)]) = Inr [] \<and>
   acfn_of (PDict []) = Inl (KeyError (PStr (ustr ''customfield_27708'')))"
proof -
  have a: "py_getitem ex_fields (PStr (ustr ''customfield_27708''))
      = Inr (PStr (ustr ''AC1'' @ [10, 10] @ ustr ''AC2'')) \<and>
      ustr ''AC1'' @ [10, 10] @ ustr ''AC2'' \<noteq> []"
    by (simp add: ex_defs ustr_def)
  have b: "py_getitem (PDict [(ustr ''customfield_27708'', PNone)])
      (PStr (ustr ''customfield_27708'')) = Inr PNone"
    by simp
  have c: "map_of [] (ustr ''customfield_27708'') = (None :: pyval option)"
    by simp
  show ?thesis
    using a b c
      acceptance_criteria_derivation [of ex_fields "ustr ''AC1'' @ [10, 10] @ ustr ''AC2''" "[]"]
      acceptance_criteria_derivation [of "PDict [(ustr ''customfield_27708'', PNone)]" "[]" "[]"]
    by blast
qed

lemma collect_map_Inr:
  "\<forall>x \<in> set xs. f x = Inr (g x) \<Longrightarrow> collect (map f xs) = Inr (map g xs)"
  by (simp add: collect_Inr_iff)

text \<open>
  C7. When the issues list is \<open>main # subs\<close> and every further issue carries its summary,
  key and self-reference, the derived sub-task list (lines 114 to 123) has one entry per
  further issue, in the same order, each with that issue's summary and key and its
  self-reference as url; so \<open>n + 1\<close> issues give \<open>n\<close> entries, and \<open>[main, sub]\<close> gives the
  one entry drawn from \<open>sub\<close>.
\<close>

theorem sub_task_list_one_per_further_issue:
  assumes "py_getitem json_result (PStr (ustr ''issues'')) = Inr (PList (main # subs))"
    and "\<forall>s \<in> set subs.
           andthen (py_getitem s (PStr (ustr ''fields'')))
             (\<lambda>f. py_getitem f (PStr (ustr ''summary''))) = Inr (summary_of s) \<and>
           py_getitem s (PStr (ustr ''key'')) = Inr (key_of s) \<and>
           py_getitem s (PStr (ustr ''self'')) = Inr (self_of s)"
  shows "\<exists>entries.
           sub_task_list_of json_result = Inr (PList entries) \<and>
           length entries = length subs \<and>
           entries = map (\<lambda>s. PDict
             [(ustr ''summary'', summary_of s),
              (ustr ''key'', key_of s),
              (ustr ''url'', self_of s)]) subs"
proof -
  let ?entry = "\<lambda>s. PDict
             [(ustr ''summary'', summary_of s),
              (ustr ''key'', key_of s),
              (ustr ''url'', self_of s)]"
  have "\<forall>s \<in> set subs. sub_task_entry s = Inr (?entry s)"
    using assms(2) by (simp add: sub_task_entry_def)
  then have "collect (map sub_task_entry subs) = Inr (map ?entry subs)"
    by (rule collect_map_Inr)
  then have "sub_task_list_of json_result = Inr (PList (map ?entry subs))"
    using assms(1) by (cases subs) (simp_all add: sub_task_list_of_def)
  then show ?thesis by simp
qed

theorem sub_task_list_one_per_further_issue_witness:
  "py_getitem ex_doc (PStr (ustr ''issues'')) = Inr (PList [ex_main, ex_sub]) \<and>
   sub_task_list_of ex_doc = Inr (PList
     [PDict [(ustr ''summary'', pstr ''Sub''),
             (ustr ''key'', pstr ''K-2''),
             (ustr ''url'', pstr ''http://j/2'')]])"
proof -
  have a: "py_getitem ex_doc (PStr (ustr ''issues'')) = Inr (PList (ex_main # [ex_sub]))"
    by (simp add: ex_doc_def ex_doc_of_def)
  have b: "\<forall>s \<in> set [ex_sub].
           andthen (py_getitem s (PStr (ustr ''fields'')))
             (\<lambda>f. py_getitem f (PStr (ustr ''summary''))) = Inr ((\<lambda>s. pstr ''Sub'') s) \<and>
           py_getitem s (PStr (ustr ''key'')) = Inr ((\<lambda>s. pstr ''K-2'') s) \<and>
           py_getitem s (PStr (ustr ''self'')) = Inr ((\<lambda>s. pstr ''http://j/2'') s)"
    by (simp add: ex_sub_def ustr_def)
  show ?thesis
    using a sub_task_list_one_per_further_issue [OF a b] by simp
qed

section \<open>The report renderer\<close>

lemma format_main_ok:
  assumes "has_keys main_keys md_dict"
  shows "\<exists>b. py_format repr main_task_template md_dict = Inr b"
proof (cases md_dict)
  case (PDict kw)
  with assms show ?thesis
    by (auto simp: main_keys_def main_task_template_def lines_text_def ustr_def)
qed (use assms in simp_all)

lemma format_attachment_ok:
  assumes "has_keys attachment_keys a"
  shows "\<exists>b. py_format repr attachment_template a = Inr b"
proof (cases a)
  case (PDict kw)
  with assms show ?thesis
    by (auto simp: attachment_keys_def attachment_template_def lines_text_def ustr_def)
qed (use assms in simp_all)

lemma format_sub_task_ok:
  assumes "has_keys sub_task_keys a"
  shows "\<exists>b. py_format repr sub_tasks_template a = Inr b"
proof (cases a)
  case (PDict kw)
  with assms show ?thesis
    by (auto simp: sub_task_keys_def sub_tasks_template_def lines_text_def ustr_def)
qed (use assms in simp_all)

lemma append_blocks_concat:
  "map f xs = map Inr bs \<Longrightarrow> append_blocks f acc xs = Inr (acc @ concat bs)"
proof (induction xs arbitrary: acc bs)
  case Nil
  then show ?case by simp
next
  case (Cons x xs)
  then obtain b bs' where "bs = b # bs'" "f x = Inr b" "map f xs = map Inr bs'"
    by (cases bs) auto
  then show ?case using Cons.IH [of bs' "acc @ b"] by simp
qed

lemma all_formatted:
  assumes "list_all (\<lambda>x. \<exists>b. f x = Inr b) xs"
  shows "\<exists>bs. map f xs = map Inr bs"
  using assms
proof (induction xs)
  case Nil
  then show ?case by simp
next
  case (Cons x xs)
  then obtain b bs where "f x = Inr b" "map f xs = map Inr bs" by auto
  then have "map f (x # xs) = map Inr (b # bs)" by simp
  then show ?case by blast
qed

lemma create_md_file_structure:
  assumes "has_keys main_keys md_dict"
    and "list_all (has_keys attachment_keys) attachments"
    and "list_all (has_keys sub_task_keys) sub_tasks"
  shows "\<exists>main ablocks sblocks.
     py_format repr main_task_template md_dict = Inr main \<and>
     map (py_format repr attachment_template) attachments = map Inr ablocks \<and>
     map (py_format repr sub_tasks_template) sub_tasks = map Inr sblocks \<and>
     create_md_file repr md_dict (PList attachments) (PList sub_tasks) =
       Inr (main
            @ (if attachments = [] then []
               else lines_text [''## Attachment''] @ concat ablocks)
            @ (if sub_tasks = [] then []
               else lines_text [''## Sub Tasks''] @ concat sblocks))"
proof -
  obtain main where m: "py_format repr main_task_template md_dict = Inr main"
    using format_main_ok [OF assms(1)] by blast
  have "list_all (\<lambda>x. \<exists>b. py_format repr attachment_template x = Inr b) attachments"
    using assms(2) format_attachment_ok by (simp add: list_all_iff)
  then obtain ablocks where
    a: "map (py_format repr attachment_template) attachments = map Inr ablocks"
    using all_formatted by blast
  have "list_all (\<lambda>x. \<exists>b. py_format repr sub_tasks_template x = Inr b) sub_tasks"
    using assms(3) format_sub_task_ok by (simp add: list_all_iff)
  then obtain sblocks where
    s: "map (py_format repr sub_tasks_template) sub_tasks = map Inr sblocks"
    using all_formatted by blast
  have "create_md_file repr md_dict (PList attachments) (PList sub_tasks) =
       Inr (main
            @ (if attachments = [] then []
               else lines_text [''## Attachment''] @ concat ablocks)
            @ (if sub_tasks = [] then []
               else lines_text [''## Sub Tasks''] @ concat sblocks))"
    using m append_blocks_concat [OF a] append_blocks_concat [OF s]
    by (simp add: create_md_file_def)
  with m a s show ?thesis by blast
qed

text \<open>
  C6, as the claim states it, fails: the report can contain the line "## Attachment" while
  the attachment list is empty, because field values are inserted as they are. Here the
  summary is that text and both lists are empty.
\<close>

theorem header_text_in_summary:
  "report_contains (lines_text [''## Attachment''])
     (create_md_file no_repr (ex_md_dict (ustr ''## Attachment'')) (PList []) (PList []))"
  by (simp add: model_defs ex_md_dict_def pstr_def)

text \<open>
  C6, amended. For a flat mapping and two lists of mappings that carry the templates'
  fields, the report is the rendered main block, followed, exactly when the attachment list
  is non-empty, by the line "## Attachment" and one block per attachment in input order,
  followed, exactly when the sub-task list is non-empty, by the line "## Sub Tasks" and one
  block per sub-task in input order; an empty list adds nothing, no header either.
\<close>

theorem report_sections:
  assumes "has_keys main_keys md_dict"
    and "list_all (has_keys attachment_keys) attachments"
    and "list_all (has_keys sub_task_keys) sub_tasks"
  shows "\<exists>main ablocks sblocks.
     py_format repr main_task_template md_dict = Inr main \<and>
     map (py_format repr attachment_template) attachments = map Inr ablocks \<and>
     map (py_format repr sub_tasks_template) sub_tasks = map Inr sblocks \<and>
     create_md_file repr md_dict (PList attachments) (PList sub_tasks) =
       Inr (main
            @ (if attachments = [] then []
               else lines_text [''## Attachment''] @ concat ablocks)
            @ (if sub_tasks = [] then []
               else lines_text [''## Sub Tasks''] @ concat sblocks))"
  using assms by (rule create_md_file_structure)

theorem report_sections_witness:
  "has_keys main_keys (ex_md_dict (ustr ''Fix login'')) \<and>
   list_all (has_keys attachment_keys) [ex_attach_entry] \<and>
   list_all (has_keys sub_task_keys) [] \<and>
   (\<exists>main ablocks.
      py_format no_repr main_task_template (ex_md_dict (ustr ''Fix login'')) = Inr main \<and>
      map (py_format no_repr attachment_template) [ex_attach_entry] = map Inr ablocks \<and>
      create_md_file no_repr (ex_md_dict (ustr ''Fix login'')) (PList [ex_attach_entry]) (PList [])
        = Inr (main @ lines_text [''## Attachment''] @ concat ablocks))"
proof -
  have k: "has_keys main_keys (ex_md_dict (ustr ''Fix login''))"
    by (simp add: ex_md_dict_def main_keys_def ustr_def)
  have a: "list_all (has_keys attachment_keys) [ex_attach_entry]"
    by (simp add: ex_attach_entry_def attachment_keys_def ustr_def)
  have s: "list_all (has_keys sub_task_keys) []"
    by simp
  show ?thesis
    using k a s report_sections [OF k a s, of no_repr] by auto
qed

section \<open>Missing required fields\<close>

lemma body_reads_every_required_field:
  assumes "proc_task_body repr md_file_name record_id json_result is_main_task = Inr r"
    and "main_task_of json_result is_main_task = Inr m"
  shows "\<exists>v. field_read fld m = Inr v"
proof -
  from assms obtain f md where
    f: "py_getitem m (PStr (ustr ''fields'')) = Inr f" and
    k: "\<exists>v. py_getitem m (PStr (ustr ''key'')) = Inr v" and
    md: "md_dict_of f = Inr md" and
    al: "\<exists>v. attach_list_of f = Inr v" and
    meta: "\<exists>v. main_meta_of md md_file_name record_id m = Inr v"
    by (auto simp: proc_task_body_def andthen_Inr_iff)
  from md have md_reads:
    "\<exists>v. py_getitem f (PStr (ustr ''labels'')) = Inr v"
    "\<exists>v. py_getitem f (PStr (ustr ''description'')) = Inr v"
    "\<exists>v. py_getitem f (PStr (ustr ''summary'')) = Inr v"
    "\<exists>v. name_of f (ustr ''status'') = Inr v"
    "\<exists>v. py_getitem f (PStr (ustr ''updated'')) = Inr v"
    "\<exists>v. name_of f (ustr ''issuetype'') = Inr v"
    by (auto simp: md_dict_of_def labels_str_of_def desc_of_def andthen_Inr_iff)
  from al have a: "\<exists>v. py_getitem f (PStr (ustr ''attachment'')) = Inr v"
    by (auto simp: attach_list_of_def andthen_Inr_iff)
  from meta have s: "\<exists>v. py_getitem m (PStr (ustr ''self'')) = Inr v"
    by (auto simp: main_meta_of_def andthen_Inr_iff)
  show ?thesis
    using f k md_reads a s by (cases fld) (auto simp: in_fields_def)
qed

lemma holds_iff: "holds ok v \<longleftrightarrow> (\<exists>x. v = Some x \<and> ok x)"
  by (cases v) simp_all

lemma present_missing [simp]: "present (Some fld) fld ok v \<longleftrightarrow> v = None"
  by (simp add: present_def)

lemma present_other: "miss \<noteq> Some fld \<Longrightarrow> present miss fld ok v \<longleftrightarrow> holds ok v"
  by (simp add: present_def)

lemma is_pstr_iff: "is_pstr v \<longleftrightarrow> (\<exists>s. v = PStr s)"
  by (cases v) simp_all

lemma collect_the_str: "list_all is_pstr ls \<Longrightarrow> \<exists>ss. collect (map the_str ls) = Inr ss"
  by (induction ls) (auto simp: is_pstr_iff)

lemma labels_stage:
  assumes "holds labels_ok (map_of kvs (ustr ''labels''))"
  shows "\<exists>s. labels_str_of (PDict kvs) = Inr s"
proof -
  from assms obtain v where v: "map_of kvs (ustr ''labels'') = Some v" "labels_ok v"
    by (auto simp: holds_iff)
  then obtain ls where "v = PList ls" "list_all is_pstr ls"
    by (cases v) simp_all
  with v collect_the_str [of ls] show ?thesis
    by (auto simp: labels_str_of_def str_join_def)
qed

lemma desc_stage:
  assumes "holds is_pstr (map_of kvs (ustr ''description''))"
  shows "\<exists>s. desc_of (PDict kvs) = Inr s"
  using assms by (auto simp: holds_iff is_pstr_iff desc_of_def nonblank_lines_kept)

lemma acfn_stage:
  assumes "holds text_or_none (map_of kvs (ustr ''customfield_27708''))"
  shows "\<exists>s. acfn_of (PDict kvs) = Inr s"
proof -
  from assms obtain v where v: "map_of kvs (ustr ''customfield_27708'') = Some v" "text_or_none v"
    by (auto simp: holds_iff)
  then show ?thesis
    by (cases v) (simp_all add: acfn_of_def nonblank_lines_kept)
qed

lemma mafn_stage:
  assumes "holds market_ok (map_of kvs (ustr ''customfield_26615''))"
  shows "\<exists>v. mafn_of (PDict kvs) = Inr v"
proof -
  from assms obtain v where v: "map_of kvs (ustr ''customfield_26615'') = Some v" "market_ok v"
    by (auto simp: holds_iff)
  then show ?thesis
    by (cases v rule: market_ok.cases) (auto simp: mafn_of_def seq_index_def)
qed

lemma named_missing:
  assumes "named (Some fld) fld (map_of kvs k)"
  shows "name_of (PDict kvs) k = Inl (KeyError (PStr (ustr ''name'')))"
  using assms
  by (cases "(Some fld, fld, map_of kvs k)" rule: named.cases)
     (auto simp: name_of_def)

lemma named_ok:
  assumes "miss \<noteq> Some fld" and "named miss fld (map_of kvs k)"
  shows "\<exists>v. name_of (PDict kvs) k = Inr v"
  using assms
  by (cases "(miss, fld, map_of kvs k)" rule: named.cases)
     (auto simp: name_of_def present_def holds_iff)

lemma md_dict_of_missing:
  assumes "fields_shape (Some fld) (PDict kvs)"
    and "fld \<in> {ReqLabels, ReqDescription, ReqSummary, ReqStatusName, ReqUpdated,
                ReqIssuetypeName}"
  shows "md_dict_of (PDict kvs) = Inl (KeyError (PStr (field_key fld)))"
proof -
  from assms(1) have
    l: "present (Some fld) ReqLabels labels_ok (map_of kvs (ustr ''labels''))" and
    d: "present (Some fld) ReqDescription is_pstr (map_of kvs (ustr ''description''))" and
    ac: "\<exists>s. acfn_of (PDict kvs) = Inr s" and
    ma: "\<exists>v. mafn_of (PDict kvs) = Inr v" and
    su: "present (Some fld) ReqSummary is_pstr (map_of kvs (ustr ''summary''))" and
    st: "named (Some fld) ReqStatusName (map_of kvs (ustr ''status''))" and
    up: "present (Some fld) ReqUpdated anything (map_of kvs (ustr ''updated''))" and
    it: "named (Some fld) ReqIssuetypeName (map_of kvs (ustr ''issuetype''))"
    by (simp_all add: acfn_stage mafn_stage)
  have ls: "fld \<noteq> ReqLabels \<Longrightarrow> \<exists>s. labels_str_of (PDict kvs) = Inr s"
    using l by (simp add: present_other labels_stage)
  have ds: "fld \<noteq> ReqDescription \<Longrightarrow> \<exists>s. desc_of (PDict kvs) = Inr s"
    using d by (simp add: present_other desc_stage)
  have ss: "fld \<noteq> ReqSummary \<Longrightarrow> \<exists>v. py_getitem (PDict kvs) (PStr (ustr ''summary'')) = Inr v"
    using su by (auto simp: present_other holds_iff)
  have sts: "fld \<noteq> ReqStatusName \<Longrightarrow>
      \<exists>v. name_of (PDict kvs) (ustr ''status'') = Inr v"
    using st named_ok [of "Some fld" ReqStatusName kvs "ustr ''status''"] by simp
  have us: "fld \<noteq> ReqUpdated \<Longrightarrow> \<exists>v. py_getitem (PDict kvs) (PStr (ustr ''updated'')) = Inr v"
    using up by (auto simp: present_other holds_iff)
  from assms(2) show ?thesis
  proof (elim insertE emptyE)
    assume "fld = ReqLabels"
    with l show ?thesis by (simp add: md_dict_of_def labels_str_of_def)
  next
    assume f: "fld = ReqDescription"
    with ls d show ?thesis by (auto simp: md_dict_of_def desc_of_def)
  next
    assume f: "fld = ReqSummary"
    with ls ds ac ma su show ?thesis by (auto simp: md_dict_of_def)
  next
    assume f: "fld = ReqStatusName"
    with ls ds ac ma ss named_missing [OF st [unfolded f]] show ?thesis
      by (auto simp: md_dict_of_def)
  next
    assume f: "fld = ReqUpdated"
    with ls ds ac ma ss sts up show ?thesis by (auto simp: md_dict_of_def)
  next
    assume f: "fld = ReqIssuetypeName"
    with ls ds ac ma ss sts us named_missing [OF it [unfolded f]] show ?thesis
      by (auto simp: md_dict_of_def)
  qed
qed

lemma md_dict_of_ok:
  assumes "fields_shape miss (PDict kvs)"
    and "miss \<notin> Some ` {ReqLabels, ReqDescription, ReqSummary, ReqStatusName, ReqUpdated,
                ReqIssuetypeName}"
  shows "\<exists>d s. md_dict_of (PDict kvs) = Inr (PDict d) \<and> has_keys main_keys (PDict d) \<and>
           map_of d (ustr ''summary'') = Some (PStr s)"
proof -
  from assms have
    "\<exists>s. labels_str_of (PDict kvs) = Inr s"
    "\<exists>s. desc_of (PDict kvs) = Inr s"
    "\<exists>s. acfn_of (PDict kvs) = Inr s"
    "\<exists>v. mafn_of (PDict kvs) = Inr v"
    "\<exists>s. py_getitem (PDict kvs) (PStr (ustr ''summary'')) = Inr (PStr s)"
    "\<exists>v. name_of (PDict kvs) (ustr ''status'') = Inr v"
    "\<exists>v. py_getitem (PDict kvs) (PStr (ustr ''updated'')) = Inr v"
    "\<exists>v. name_of (PDict kvs) (ustr ''issuetype'') = Inr v"
    by (auto simp: present_other labels_stage desc_stage acfn_stage mafn_stage named_ok
        holds_iff is_pstr_iff)
  then obtain a b c d e f g h where
    "labels_str_of (PDict kvs) = Inr a"
    "desc_of (PDict kvs) = Inr b"
    "acfn_of (PDict kvs) = Inr c"
    "mafn_of (PDict kvs) = Inr d"
    "py_getitem (PDict kvs) (PStr (ustr ''summary'')) = Inr (PStr e)"
    "name_of (PDict kvs) (ustr ''status'') = Inr f"
    "py_getitem (PDict kvs) (PStr (ustr ''updated'')) = Inr g"
    "name_of (PDict kvs) (ustr ''issuetype'') = Inr h"
    by blast
  then have "md_dict_of (PDict kvs) = Inr (PDict
       [(ustr ''summary'', PStr e),
        (ustr ''description'', PStr b),
        (ustr ''status'', f),
        (ustr ''updated'', g),
        (ustr ''issuetype'', h),
        (ustr ''labels'', PStr a),
        (ustr ''marketAffectedFieldName'', d),
        (ustr ''acceptanceCriteriaFieldName'', PStr c)])"
    by (simp add: md_dict_of_def)
  then show ?thesis
    by (simp add: main_keys_def ustr_def)
qed

lemma collect_map_ok:
  assumes "list_all (\<lambda>x. \<exists>y. f x = Inr y \<and> P y) xs"
  shows "\<exists>ys. collect (map f xs) = Inr ys \<and> list_all P ys"
  using assms
proof (induction xs)
  case Nil
  then show ?case by simp
next
  case (Cons x xs)
  then obtain y ys where "f x = Inr y" "P y" "collect (map f xs) = Inr ys" "list_all P ys"
    by auto
  then show ?case by simp
qed

lemma attach_entry_ok:
  assumes "has_keys (map ustr [''id'', ''filename'', ''created'', ''size'', ''content'']) info"
  shows "\<exists>e. attach_entry info = Inr e \<and> has_keys attachment_keys e"
proof (cases info)
  case (PDict kvs)
  with assms obtain a b c d e where
    "map_of kvs (ustr ''id'') = Some a" "map_of kvs (ustr ''filename'') = Some b"
    "map_of kvs (ustr ''created'') = Some c" "map_of kvs (ustr ''size'') = Some d"
    "map_of kvs (ustr ''content'') = Some e"
    by auto
  with PDict have "attach_entry info = Inr (PDict
       [(ustr ''file_id'', a),
        (ustr ''file_name'', b),
        (ustr ''created'', c),
        (ustr ''size'', d),
        (ustr ''url'', e)])"
    by (simp add: attach_entry_def)
  then show ?thesis by (simp add: attachment_keys_def ustr_def)
qed (use assms in simp_all)

lemma attach_stage:
  assumes "holds attachments_ok (map_of kvs (ustr ''attachment''))"
  shows "\<exists>entries. attach_list_of (PDict kvs) = Inr (PList entries) \<and>
           list_all (has_keys attachment_keys) entries"
proof -
  from assms obtain v where v: "map_of kvs (ustr ''attachment'') = Some v" "attachments_ok v"
    by (auto simp: holds_iff)
  show ?thesis
  proof (cases v)
    case PNone
    with v show ?thesis by (simp add: attach_list_of_def)
  next
    case (PList infos)
    with v have "list_all (\<lambda>x. \<exists>y. attach_entry x = Inr y \<and> has_keys attachment_keys y) infos"
      using attach_entry_ok by (simp add: list_all_iff)
    then obtain ys where "collect (map attach_entry infos) = Inr ys"
      "list_all (has_keys attachment_keys) ys"
      using collect_map_ok by blast
    with v PList show ?thesis by (cases infos) (simp_all add: attach_list_of_def)
  qed (use v in simp_all)
qed

lemma sub_entry_ok:
  assumes "sub_issue_ok s"
  shows "\<exists>e. sub_task_entry s = Inr e \<and> has_keys sub_task_keys e"
proof (cases s)
  case (PDict kvs)
  with assms obtain f k u where
    f: "has_keys [ustr ''summary''] f" "map_of kvs (ustr ''fields'') = Some f" and
    k: "map_of kvs (ustr ''key'') = Some k" "map_of kvs (ustr ''self'') = Some u"
    by (cases "map_of kvs (ustr ''fields'')") auto
  from f obtain fk sm where "f = PDict fk" "map_of fk (ustr ''summary'') = Some sm"
    by (cases f) auto
  with PDict f k have "sub_task_entry s = Inr (PDict
       [(ustr ''summary'', sm),
        (ustr ''key'', k),
        (ustr ''url'', u)])"
    by (simp add: sub_task_entry_def)
  then show ?thesis by (simp add: sub_task_keys_def ustr_def)
qed (use assms in simp_all)

lemma issues_shape_iff:
  "issues_shape miss v \<longleftrightarrow>
     (\<exists>m subs. v = Some (PList (m # subs)) \<and> main_shape miss m \<and> list_all sub_issue_ok subs)"
  by (cases "(miss, v)" rule: issues_shape.cases) auto

lemma sub_stage:
  assumes "issues_shape miss (map_of kvs (ustr ''issues''))"
  shows "\<exists>entries. sub_task_list_of (PDict kvs) = Inr (PList entries) \<and>
           list_all (has_keys sub_task_keys) entries"
proof -
  from assms obtain m subs where
    i: "map_of kvs (ustr ''issues'') = Some (PList (m # subs))" and
    s: "list_all sub_issue_ok subs"
    by (auto simp: issues_shape_iff)
  from s have "list_all (\<lambda>x. \<exists>y. sub_task_entry x = Inr y \<and> has_keys sub_task_keys y) subs"
    using sub_entry_ok by (simp add: list_all_iff)
  then obtain ys where "collect (map sub_task_entry subs) = Inr ys"
    "list_all (has_keys sub_task_keys) ys"
    using collect_map_ok by blast
  with i show ?thesis by (cases subs) (simp_all add: sub_task_list_of_def)
qed

lemma main_task_stage:
  assumes "doc_shape miss json_result"
  shows "\<exists>kvs. main_task_of json_result True = Inr (PDict kvs) \<and> main_shape miss (PDict kvs)"
proof (cases json_result)
  case (PDict top_kvs)
  with assms obtain m subs where
    i: "map_of top_kvs (ustr ''issues'') = Some (PList (m # subs))" and m: "main_shape miss m"
    by (auto simp: issues_shape_iff)
  from m obtain kvs where "m = PDict kvs" by (cases m) simp_all
  with PDict i m show ?thesis by (simp add: main_task_of_def seq_index_def)
qed (use assms in simp_all)

lemma fields_stage:
  assumes "main_shape miss (PDict kvs)"
  shows "\<exists>fk. py_getitem (PDict kvs) (PStr (ustr ''fields'')) = Inr (PDict fk) \<and>
           fields_shape miss (PDict fk)"
proof -
  from assms have f: "fields_shape miss
      (case map_of kvs (ustr ''fields'') of None \<Rightarrow> PNone | Some f \<Rightarrow> f)"
    by simp
  then obtain f where s: "map_of kvs (ustr ''fields'') = Some f"
    by (cases "map_of kvs (ustr ''fields'')") simp_all
  with f obtain fk where "f = PDict fk" by (cases f) simp_all
  with f s show ?thesis by simp
qed

lemma create_md_file_ok:
  assumes "has_keys main_keys md_dict"
    and "list_all (has_keys attachment_keys) attachments"
    and "list_all (has_keys sub_task_keys) sub_tasks"
  shows "\<exists>report. create_md_file repr md_dict (PList attachments) (PList sub_tasks) = Inr report"
  using create_md_file_structure [OF assms] by blast

lemma sub_stage_doc:
  assumes "doc_shape miss json_result"
  shows "\<exists>entries. sub_task_list_of json_result = Inr (PList entries) \<and>
           list_all (has_keys sub_task_keys) entries"
  using assms by (cases json_result) (simp_all add: sub_stage)

lemma missing_field_raises_KeyError:
  assumes "doc_shape (Some fld) json_result"
  shows "proc_task_body repr md_file_name record_id json_result True
           = Inl (KeyError (PStr (field_key fld)))"
proof -
  obtain mk where m: "main_task_of json_result True = Inr (PDict mk)"
    and ms: "main_shape (Some fld) (PDict mk)"
    using main_task_stage [OF assms] by blast
  obtain fk where f: "py_getitem (PDict mk) (PStr (ustr ''fields'')) = Inr (PDict fk)"
    and fs: "fields_shape (Some fld) (PDict fk)"
    using fields_stage [OF ms] by blast
  from ms have k: "present (Some fld) ReqKey anything (map_of mk (ustr ''key''))"
    and s: "present (Some fld) ReqSelf is_pstr (map_of mk (ustr ''self''))"
    by simp_all
  have kv: "fld \<noteq> ReqKey \<Longrightarrow> \<exists>v. py_getitem (PDict mk) (PStr (ustr ''key'')) = Inr v"
    using k by (auto simp: present_other holds_iff)
  have mdv: "fld \<in> {ReqAttachment, ReqSelf} \<Longrightarrow>
      \<exists>d t. md_dict_of (PDict fk) = Inr (PDict d) \<and> has_keys main_keys (PDict d) \<and>
        map_of d (ustr ''summary'') = Some (PStr t)"
    using md_dict_of_ok [OF fs] by auto
  consider (key) "fld = ReqKey"
    | (md) "fld \<in> {ReqLabels, ReqDescription, ReqSummary, ReqStatusName, ReqUpdated,
                ReqIssuetypeName}"
    | (att) "fld = ReqAttachment"
    | (self) "fld = ReqSelf"
    by (cases fld) auto
  then show ?thesis
  proof cases
    case key
    with m f k show ?thesis by (simp add: proc_task_body_def)
  next
    case md
    then have "fld \<noteq> ReqKey" by auto
    with kv obtain v where "py_getitem (PDict mk) (PStr (ustr ''key'')) = Inr v" by blast
    with m f md_dict_of_missing [OF fs md] show ?thesis
      by (simp add: proc_task_body_def)
  next
    case att
    with kv obtain v where v: "py_getitem (PDict mk) (PStr (ustr ''key'')) = Inr v" by auto
    from att mdv obtain d where d: "md_dict_of (PDict fk) = Inr (PDict d)" by auto
    from fs att have "attach_list_of (PDict fk) = Inl (KeyError (PStr (ustr ''attachment'')))"
      by (simp add: attach_list_of_def)
    with m f v d att show ?thesis
      by (simp add: proc_task_body_def)
  next
    case self
    with kv obtain v where v: "py_getitem (PDict mk) (PStr (ustr ''key'')) = Inr v" by auto
    from self mdv obtain d t where d: "md_dict_of (PDict fk) = Inr (PDict d)"
      "has_keys main_keys (PDict d)" "map_of d (ustr ''summary'') = Some (PStr t)" by auto
    from fs self have "holds attachments_ok (map_of fk (ustr ''attachment''))"
      by (simp add: present_other)
    then obtain al where al: "attach_list_of (PDict fk) = Inr (PList al)"
      "list_all (has_keys attachment_keys) al"
      using attach_stage by blast
    obtain sl where sl: "sub_task_list_of json_result = Inr (PList sl)"
      "list_all (has_keys sub_task_keys) sl"
      using sub_stage_doc [OF assms] by blast
    obtain report where r: "create_md_file repr (PDict d) (PList al) (PList sl) = Inr report"
      using create_md_file_ok [OF d(2) al(2) sl(2)] by blast
    from s self d(3) have "main_meta_of (PDict d) md_file_name record_id (PDict mk)
        = Inl (KeyError (PStr (ustr ''self'')))"
      by (simp add: main_meta_of_def)
    with m f v d al sl r self show ?thesis
      by (simp add: proc_task_body_def)
  qed
qed

text \<open>
  C9, as the claim states it, fails in its last clause: the two custom fields are not the
  only fields with a default. An attachment field held as None takes the else branch of
  line 110 and gives the empty list, and the document is processed to the end; and a custom
  field whose key is absent has no default, it raises KeyError.
\<close>

theorem null_attachment_defaults:
  "attach_list_of (set_key (ustr ''attachment'') PNone ex_fields) = Inr (PList []) \<and>
   map_sum id (\<lambda>r. snd (snd r))
     (proc_task_body no_repr (pstr ''id.md'') (pstr ''id'')
        (ex_doc_of (ex_issue (set_key (ustr ''attachment'') PNone ex_fields))) True)
     = Inr (PStr (ustr ''K-1'')) \<and>
   mafn_of (del_key (ustr ''customfield_26615'') ex_fields)
     = Inl (KeyError (PStr (ustr ''customfield_26615'')))"
  by (simp add: model_defs ex_defs)

text \<open>
  C9, amended. A document in which a required field (summary, description, status name,
  updated, issuetype name, labels, key, self-reference or attachment) is absent makes the
  body of \<open>proc_task\<close> fail and return nothing: whenever the read of a required field from
  the main task fails, the body fails; and on a document that lacks exactly that key and is
  well-formed otherwise, the failure is the KeyError of that key. A default is substituted
  for three fields only, and only for a value that is present and empty or None: the two
  custom fields give empty text and attachment gives the empty list; when their key is
  absent these three raise KeyError too. For the other fields None is no default either:
  a description, labels, status or issuetype held as None raises, a self-reference held
  as None makes the body fail, and summary, updated and key are passed on as they are.
\<close>

theorem required_field_absent_raises:
  "(main_task_of json_result is_main_task = Inr m \<and> field_read fld m = Inl e \<longrightarrow>
      (\<exists>e'. proc_task_body repr md_file_name record_id json_result is_main_task = Inl e')) \<and>
   (doc_shape (Some fld) json_result \<longrightarrow>
      proc_task_body repr md_file_name record_id json_result True
        = Inl (KeyError (PStr (field_key fld)))) \<and>
   (py_getitem task_fields (PStr (ustr ''customfield_27708'')) = Inr v1 \<and> \<not> py_truthy v1 \<longrightarrow>
      acfn_of task_fields = Inr []) \<and>
   (py_getitem task_fields (PStr (ustr ''customfield_26615'')) = Inr v2 \<and> \<not> py_truthy v2 \<longrightarrow>
      mafn_of task_fields = Inr (PStr [])) \<and>
   (py_getitem task_fields (PStr (ustr ''attachment'')) = Inr v3 \<and> \<not> py_truthy v3 \<longrightarrow>
      attach_list_of task_fields = Inr (PList [])) \<and>
   (map_of kvs (ustr ''customfield_27708'') = None \<longrightarrow>
      acfn_of (PDict kvs) = Inl (KeyError (PStr (ustr ''customfield_27708'')))) \<and>
   (map_of kvs (ustr ''customfield_26615'') = None \<longrightarrow>
      mafn_of (PDict kvs) = Inl (KeyError (PStr (ustr ''customfield_26615'')))) \<and>
   (map_of kvs (ustr ''attachment'') = None \<longrightarrow>
      attach_list_of (PDict kvs) = Inl (KeyError (PStr (ustr ''attachment'')))) \<and>
   (py_getitem task_fields (PStr (ustr ''description'')) = Inr PNone \<longrightarrow>
      desc_of task_fields = Inl AttributeError) \<and>
   (py_getitem task_fields (PStr (ustr ''labels'')) = Inr PNone \<longrightarrow>
      labels_str_of task_fields = Inl TypeError) \<and>
   (py_getitem task_fields (PStr k) = Inr PNone \<longrightarrow>
      name_of task_fields k = Inl TypeError) \<and>
   (md_dict_of good_fields = Inr md_dict \<longrightarrow>
      py_getitem md_dict (PStr (ustr ''summary''))
        = py_getitem good_fields (PStr (ustr ''summary'')) \<and>
      py_getitem md_dict (PStr (ustr ''updated''))
        = py_getitem good_fields (PStr (ustr ''updated''))) \<and>
   (main_task_of good_doc is_main_task = Inr good_main \<and>
    proc_task_body repr md_file_name record_id good_doc is_main_task = Inr (report, meta, task_key)
      \<longrightarrow> py_getitem good_main (PStr (ustr ''key'')) = Inr task_key) \<and>
   (main_task_of json_result is_main_task = Inr m \<and>
    py_getitem m (PStr (ustr ''self'')) = Inr PNone \<longrightarrow>
      (\<exists>e'. proc_task_body repr md_file_name record_id json_result is_main_task = Inl e'))"
proof (intro conjI impI)
  assume a: "main_task_of json_result is_main_task = Inr m \<and> field_read fld m = Inl e"
  show "\<exists>e'. proc_task_body repr md_file_name record_id json_result is_main_task = Inl e'"
  proof (cases "proc_task_body repr md_file_name record_id json_result is_main_task")
    case (Inl e')
    then show ?thesis by blast
  next
    case (Inr r)
    then have "\<exists>v. field_read fld m = Inr v"
      using a body_reads_every_required_field by blast
    with a show ?thesis by simp
  qed
next
  assume "doc_shape (Some fld) json_result"
  then show "proc_task_body repr md_file_name record_id json_result True
        = Inl (KeyError (PStr (field_key fld)))"
    by (rule missing_field_raises_KeyError)
next
  assume "py_getitem task_fields (PStr (ustr ''customfield_27708'')) = Inr v1 \<and> \<not> py_truthy v1"
  then show "acfn_of task_fields = Inr []" by (simp add: acfn_of_def)
next
  assume "py_getitem task_fields (PStr (ustr ''customfield_26615'')) = Inr v2 \<and> \<not> py_truthy v2"
  then show "mafn_of task_fields = Inr (PStr [])" by (simp add: mafn_of_def)
next
  assume "py_getitem task_fields (PStr (ustr ''attachment'')) = Inr v3 \<and> \<not> py_truthy v3"
  then show "attach_list_of task_fields = Inr (PList [])" by (simp add: attach_list_of_def)
next
  assume "map_of kvs (ustr ''customfield_27708'') = None"
  then show "acfn_of (PDict kvs) = Inl (KeyError (PStr (ustr ''customfield_27708'')))"
    by (simp add: acfn_of_def)
next
  assume "map_of kvs (ustr ''customfield_26615'') = None"
  then show "mafn_of (PDict kvs) = Inl (KeyError (PStr (ustr ''customfield_26615'')))"
    by (simp add: mafn_of_def)
next
  assume "map_of kvs (ustr ''attachment'') = None"
  then show "attach_list_of (PDict kvs) = Inl (KeyError (PStr (ustr ''attachment'')))"
    by (simp add: attach_list_of_def)
next
  assume "py_getitem task_fields (PStr (ustr ''description'')) = Inr PNone"
  then show "desc_of task_fields = Inl AttributeError"
    by (simp add: desc_of_def nonblank_lines_def)
next
  assume "py_getitem task_fields (PStr (ustr ''labels'')) = Inr PNone"
  then show "labels_str_of task_fields = Inl TypeError"
    by (simp add: labels_str_of_def str_join_def)
next
  assume "py_getitem task_fields (PStr k) = Inr PNone"
  then show "name_of task_fields k = Inl TypeError"
    by (simp add: name_of_def)
next
  assume md: "md_dict_of good_fields = Inr md_dict"
  then obtain s u where "py_getitem good_fields (PStr (ustr ''summary'')) = Inr s"
    "py_getitem good_fields (PStr (ustr ''updated'')) = Inr u"
    "map_of (dict_items md_dict) (ustr ''summary'') = Some s"
    "map_of (dict_items md_dict) (ustr ''updated'') = Some u"
    "md_dict = PDict (dict_items md_dict)"
    by (auto simp: md_dict_of_def andthen_Inr_iff ustr_def)
  then show "py_getitem md_dict (PStr (ustr ''summary''))
        = py_getitem good_fields (PStr (ustr ''summary''))"
    and "py_getitem md_dict (PStr (ustr ''updated''))
        = py_getitem good_fields (PStr (ustr ''updated''))"
    by (metis option.simps(5) py_getitem.simps(1))+
next
  assume "main_task_of good_doc is_main_task = Inr good_main \<and>
    proc_task_body repr md_file_name record_id good_doc is_main_task = Inr (report, meta, task_key)"
  then show "py_getitem good_main (PStr (ustr ''key'')) = Inr task_key"
    by (auto simp: proc_task_body_def andthen_Inr_iff)
next
  assume a: "main_task_of json_result is_main_task = Inr m \<and>
    py_getitem m (PStr (ustr ''self'')) = Inr PNone"
  show "\<exists>e'. proc_task_body repr md_file_name record_id json_result is_main_task = Inl e'"
  proof (cases "proc_task_body repr md_file_name record_id json_result is_main_task")
    case (Inl e')
    then show ?thesis by blast
  next
    case (Inr r)
    then obtain md out where "main_meta_of md md_file_name record_id m = Inr out"
      using a by (auto simp: proc_task_body_def andthen_Inr_iff)
    with a show ?thesis
      by (auto simp: main_meta_of_def andthen_Inr_iff)
  qed
qed

theorem required_field_absent_raises_witness:
  "field_read ReqLabels (ex_issue (del_key (ustr ''labels'') ex_fields))
     = Inl (KeyError (PStr (ustr ''labels''))) \<and>
   doc_shape (Some ReqLabels) (ex_doc_of (ex_issue (del_key (ustr ''labels'') ex_fields))) \<and>
   proc_task_body no_repr (pstr ''id.md'') (pstr ''id'')
       (ex_doc_of (ex_issue (del_key (ustr ''labels'') ex_fields))) True
     = Inl (KeyError (PStr (ustr ''labels''))) \<and>
   acfn_of ex_null_fields = Inr [] \<and>
   mafn_of ex_null_fields = Inr (PStr []) \<and>
   attach_list_of ex_null_fields = Inr (PList []) \<and>
   acfn_of (PDict []) = Inl (KeyError (PStr (ustr ''customfield_27708''))) \<and>
   mafn_of (PDict []) = Inl (KeyError (PStr (ustr ''customfield_26615''))) \<and>
   attach_list_of (PDict []) = Inl (KeyError (PStr (ustr ''attachment''))) \<and>
   desc_of ex_null_fields = Inl AttributeError \<and>
   labels_str_of ex_null_fields = Inl TypeError \<and>
   name_of ex_null_fields (ustr ''status'') = Inl TypeError \<and>
   (\<exists>md. md_dict_of ex_fields = Inr md \<and>
      py_getitem md (PStr (ustr ''summary'')) = Inr (pstr ''Fix login'') \<and>
      py_getitem md (PStr (ustr ''updated'')) = Inr (pstr ''2024-01-02'')) \<and>
   (\<exists>report meta task_key.
      proc_task_body no_repr (pstr ''id.md'') (pstr ''id'') ex_doc True
        = Inr (report, meta, task_key) \<and>
      py_getitem ex_main (PStr (ustr ''key'')) = Inr task_key) \<and>
   py_getitem (set_key (ustr ''self'') PNone ex_main) (PStr (ustr ''self'')) = Inr PNone \<and>
   (\<exists>e'. proc_task_body no_repr (pstr ''id.md'') (pstr ''id'')
       (ex_doc_of (set_key (ustr ''self'') PNone ex_main)) True = Inl e')"
proof -
  let ?m = "ex_issue (del_key (ustr ''labels'') ex_fields)"
  let ?m2 = "set_key (ustr ''self'') PNone ex_main"
  have a: "main_task_of (ex_doc_of ?m) True = Inr ?m"
    "main_task_of ex_doc True = Inr ex_main"
    "main_task_of (ex_doc_of ?m2) True = Inr ?m2"
    by (simp_all add: main_task_of_def ex_doc_def ex_doc_of_def seq_index_def)
  have b: "field_read ReqLabels ?m = Inl (KeyError (PStr (ustr ''labels'')))"
    by (simp add: in_fields_def ex_defs ustr_def)
  have c: "doc_shape (Some ReqLabels) (ex_doc_of ?m)"
    by (simp add: ex_defs present_def anything_def ustr_def)
  have n: "py_getitem ex_null_fields (PStr (ustr ''customfield_27708'')) = Inr PNone"
    "py_getitem ex_null_fields (PStr (ustr ''customfield_26615'')) = Inr PNone"
    "py_getitem ex_null_fields (PStr (ustr ''attachment'')) = Inr PNone"
    "py_getitem ex_null_fields (PStr (ustr ''description'')) = Inr PNone"
    "py_getitem ex_null_fields (PStr (ustr ''labels'')) = Inr PNone"
    "py_getitem ex_null_fields (PStr (ustr ''status'')) = Inr PNone"
    "\<not> py_truthy PNone"
    by (simp_all add: ex_null_fields_def ustr_def)
  have k: "map_of [] (ustr ''customfield_27708'') = (None :: pyval option)"
    "map_of [] (ustr ''customfield_26615'') = (None :: pyval option)"
    "map_of [] (ustr ''attachment'') = (None :: pyval option)"
    by simp_all
  obtain md where md: "md_dict_of ex_fields = Inr md"
    by (simp add: model_defs ex_defs)
  have g: "py_getitem ex_fields (PStr (ustr ''summary'')) = Inr (pstr ''Fix login'')"
    "py_getitem ex_fields (PStr (ustr ''updated'')) = Inr (pstr ''2024-01-02'')"
    by (simp_all add: ex_defs ustr_def)
  obtain report meta task_key where
    r: "proc_task_body no_repr (pstr ''id.md'') (pstr ''id'') ex_doc True
        = Inr (report, meta, task_key)"
    by (simp add: model_defs ex_defs)
  have s: "py_getitem ?m2 (PStr (ustr ''self'')) = Inr PNone"
    by (simp add: ex_defs ustr_def)
  note t1 = required_field_absent_raises
    [where json_result = "ex_doc_of ?m" and is_main_task = True and m = ?m
       and fld = ReqLabels and e = "KeyError (PStr (ustr ''labels''))"
       and repr = no_repr and md_file_name = "pstr ''id.md''" and record_id = "pstr ''id''"
       and task_fields = ex_null_fields and ?v1.0 = PNone and ?v2.0 = PNone and ?v3.0 = PNone
       and kvs = "[]" and k = "ustr ''status''" and good_fields = ex_fields
       and md_dict = md and good_doc = ex_doc and good_main = ex_main
       and report = report and meta = meta and task_key = task_key]
  note t2 = required_field_absent_raises
    [where json_result = "ex_doc_of ?m2" and is_main_task = True and m = ?m2
       and repr = no_repr and md_file_name = "pstr ''id.md''" and record_id = "pstr ''id''"]
  show ?thesis
    using a b c n k md g r s t1 t2 by (intro conjI) (blast | simp)+
qed

section \<open>The metadata renderer\<close>

text \<open>
  C10. Called with no arguments, \<open>create_meta_file\<close> encodes the mapping of the twelve keys
  in which level is 0, attachment_type is "file" and the other ten values are None, written
  as null.
\<close>

theorem create_meta_file_defaults:
  \<open>meta_content no_args = PDict
     [(ustr ''level'', PInt 0),
      (ustr ''title'', PNone),
      (ustr ''file_name'', PNone),
      (ustr ''file_record_id'', PNone),
      (ustr ''file_original_name'', PNone),
      (ustr ''file_original_path'', PNone),
      (ustr ''source'', PNone),
      (ustr ''value_stream'', PNone),
      (ustr ''categories'', PNone),
      (ustr ''parent_file_name'', PNone),
      (ustr ''attachment_type'', PStr (ustr ''file'')),
      (ustr ''owner'', PNone)] \<and>
   create_meta_file no_args = Inr (ustr
     ''{"level": 0, "title": null, "file_name": null, "file_record_id": null, "file_original_name": null, "file_original_path": null, "source": null, "value_stream": null, "categories": null, "parent_file_name": null, "attachment_type": "file", "owner": null}'')\<close>
  by (simp add: no_args_def model_defs)

subsection \<open>Strings\<close>

lemma unhex_hex_digit: "d < 16 \<Longrightarrow> unhex (hex_digit d) = Some d"
  by (auto simp: unhex_def hex_digit_def)

lemma read_string_escape:
  "read_string acc (json_escape_char c @ rest) = read_string (c # acc) rest"
proof (cases "c < 32 \<and> c \<notin> {8, 9, 10, 12, 13}")
  case True
  then have "c div 16 < 16" "c mod 16 < 16" "(c div 16) * 16 + c mod 16 = c"
    by auto
  then have "unhex4 ([48, 48, hex_digit (c div 16), hex_digit (c mod 16)] @ rest) = Some (c, rest)"
    by (simp add: unhex_hex_digit) (simp add: unhex_def)
  with True show ?thesis
    by (auto simp: json_escape_char_def)
next
  case False
  then show ?thesis
    by (auto simp: json_escape_char_def simple_escape_def)
qed

lemma read_string_escaped:
  "read_string acc (concat (map json_escape_char s) @ 34 # rest) = Some (rev acc @ s, rest)"
  by (induction s arbitrary: acc) (simp_all add: read_string_escape)

lemma read_string_quote:
  "read_string [] (tl (json_quote s) @ rest) = Some (s, rest)"
  using read_string_escaped [of "[]" s rest] by (simp add: json_quote_def)

subsection \<open>Numerals\<close>

lemma str_of_nat_digits: "x \<in> set (str_of_nat n) \<Longrightarrow> is_digit x"
proof (induction n rule: str_of_nat.induct)
  case (1 n)
  show ?case
  proof (cases "n < 10")
    case True
    with 1(2) show ?thesis
      by (subst (asm) str_of_nat.simps) (simp add: is_digit_def)
  next
    case False
    with 1(2) have "x \<in> set (str_of_nat (n div 10)) \<or> x = 48 + n mod 10"
      by (subst (asm) str_of_nat.simps) auto
    with 1(1) False show ?thesis by (auto simp: is_digit_def)
  qed
qed

lemma str_of_nat_nonempty: "str_of_nat n \<noteq> []"
  by (subst str_of_nat.simps) simp

lemma nat_of_digits_append:
  "nat_of_digits n (xs @ ys) = nat_of_digits (nat_of_digits n xs) ys"
  by (induction xs arbitrary: n) simp_all

lemma nat_of_digits_str_of_nat: "nat_of_digits 0 (str_of_nat n) = n"
proof (induction n rule: str_of_nat.induct)
  case (1 n)
  show ?case
  proof (cases "n < 10")
    case True
    then show ?thesis by (subst str_of_nat.simps) simp
  next
    case False
    then have "nat_of_digits 0 (str_of_nat n)
        = nat_of_digits 0 (str_of_nat (n div 10) @ [48 + n mod 10])"
      by (subst str_of_nat.simps) simp
    also have "\<dots> = (n div 10) * 10 + n mod 10"
      using 1 False by (simp add: nat_of_digits_append)
    finally show ?thesis by simp
  qed
qed

lemma str_of_nat_leading_zero: "take 1 (str_of_nat n) = [48] \<Longrightarrow> n = 0"
proof (induction n rule: str_of_nat.induct)
  case (1 n)
  show ?case
  proof (cases "n < 10")
    case True
    with 1(2) show ?thesis by (subst (asm) str_of_nat.simps) simp
  next
    case False
    with 1(2) have "take 1 (str_of_nat (n div 10)) = [48]"
      using str_of_nat_nonempty [of "n div 10"]
      by (subst (asm) str_of_nat.simps) (cases "str_of_nat (n div 10)", simp_all)
    with 1(1) False have "n div 10 = 0" by simp
    with False show ?thesis by simp
  qed
qed

lemma str_of_nat_length: "1 < length (str_of_nat n) \<Longrightarrow> n \<noteq> 0"
  by (subst (asm) str_of_nat.simps) (auto split: if_splits)

lemma delimited_not_digit:
  assumes "delimited rest"
  shows "takeWhile is_digit rest = []" "dropWhile is_digit rest = rest"
    "take 1 rest \<notin> {[46], [101], [69]}" "skip_ws rest = rest" "rest \<noteq> []"
  using assms by (cases rest; auto simp: delimited_def is_digit_def skip_ws_def)+

lemma read_digits_str_of_nat:
  assumes "delimited rest"
  shows "read_digits (str_of_nat n @ rest) = Some (n, rest)"
proof -
  have d: "\<forall>x \<in> set (str_of_nat n). is_digit x"
    using str_of_nat_digits by blast
  have t: "takeWhile is_digit (str_of_nat n @ rest) = str_of_nat n"
    using d delimited_not_digit(1) [OF assms] by (simp add: takeWhile_append2)
  have r: "dropWhile is_digit (str_of_nat n @ rest) = rest"
    using d delimited_not_digit(2) [OF assms] by (simp add: dropWhile_append2)
  have z: "\<not> (1 < length (str_of_nat n) \<and> take 1 (str_of_nat n) = [48])"
    using str_of_nat_leading_zero str_of_nat_length by blast
  show ?thesis
    using t r z delimited_not_digit(3) [OF assms] str_of_nat_nonempty [of n]
    by (simp add: read_digits_def Let_def nat_of_digits_str_of_nat del: insert_iff)
qed

lemma read_int_str_of_int:
  assumes "delimited rest"
  shows "read_int (str_of_int i @ rest) = Some (i, rest)"
proof (cases "i < 0")
  case True
  then show ?thesis
    using read_digits_str_of_nat [OF assms, of "nat (- i)"]
    by (simp add: str_of_int_def)
next
  case False
  obtain c cs where s: "str_of_nat (nat i) = c # cs"
    using str_of_nat_nonempty [of "nat i"] by (cases "str_of_nat (nat i)") auto
  then have "is_digit c" using str_of_nat_digits [of c "nat i"] by simp
  then have "c \<noteq> 45" by (auto simp: is_digit_def)
  then show ?thesis
    using False s read_digits_str_of_nat [OF assms, of "nat i"]
    by (simp add: str_of_int_def)
qed

subsection \<open>Values\<close>

lemma json_dumps_scalar: "scalar v \<Longrightarrow> json_dumps v = Inr (scalar_text v)"
  by (cases v) (simp_all add: scalar_text_def)

lemma str_of_int_first:
  "\<exists>c cs. str_of_int i = c # cs \<and> (is_digit c \<or> c = 45)"
proof (cases "i < 0")
  case True
  then show ?thesis by (simp add: str_of_int_def)
next
  case False
  obtain c cs where s: "str_of_nat (nat i) = c # cs"
    using str_of_nat_nonempty [of "nat i"] by (cases "str_of_nat (nat i)") auto
  then have "is_digit c" using str_of_nat_digits [of c "nat i"] by simp
  with s False show ?thesis by (simp add: str_of_int_def)
qed

lemma read_value_scalar:
  assumes "scalar v" and "delimited rest"
  shows "read_value (scalar_text v @ rest) = Some (v, rest)"
proof (cases v)
  case PNone
  then show ?thesis by (simp add: scalar_text_def read_value_def ustr_def)
next
  case (PBool b)
  then show ?thesis by (simp add: scalar_text_def read_value_def ustr_def)
next
  case (PInt i)
  obtain c cs where s: "str_of_int i = c # cs" and c: "is_digit c \<or> c = 45"
    using str_of_int_first by blast
  from c have "c \<noteq> 110" "c \<noteq> 116" "c \<noteq> 102" "c \<noteq> 34"
    by (auto simp: is_digit_def)
  then have "read_value (str_of_int i @ rest)
      = map_option (\<lambda>(i, rest). (PInt i, rest)) (read_int (str_of_int i @ rest))"
    using s by (simp add: read_value_def ustr_def)
  then show ?thesis
    using PInt read_int_str_of_int [OF assms(2), of i] by (simp add: scalar_text_def)
next
  case (PStr s)
  have "read_value (json_quote s @ rest)
      = map_option (\<lambda>(str, rest). (PStr str, rest)) (read_string [] (tl (json_quote s) @ rest))"
    by (simp add: read_value_def json_quote_def ustr_def)
  then show ?thesis
    using PStr by (simp add: scalar_text_def read_string_quote)
qed (use assms in simp_all)

lemma scalar_text_first:
  assumes "scalar v"
  shows "\<exists>c cs. scalar_text v = c # cs \<and> c \<notin> {32, 9, 10, 13}"
proof (cases v)
  case (PInt i)
  obtain c cs where s: "str_of_int i = c # cs" and c: "is_digit c \<or> c = 45"
    using str_of_int_first by blast
  from c have "c \<notin> {32, 9, 10, 13}" by (auto simp: is_digit_def)
  with s PInt show ?thesis by (simp add: scalar_text_def)
qed (use assms in \<open>simp_all add: scalar_text_def ustr_def json_quote_def\<close>)

subsection \<open>Members\<close>

lemma json_member_scalar:
  "scalar (snd kv) \<Longrightarrow> json_member (map_prod id json_dumps kv) = Inr (member_text kv)"
  by (cases kv) (simp add: json_member_def json_dumps_scalar member_text_def)

lemma json_dumps_flat:
  assumes "list_all (\<lambda>kv. scalar (snd kv)) kvs"
  shows "json_dumps (PDict kvs)
    = Inr (ustr ''{'' @ join (ustr '', '') (map member_text kvs) @ ustr ''}'')"
proof -
  have "map json_member (map (map_prod id json_dumps) kvs) = map Inr (map member_text kvs)"
    using assms by (induction kvs) (simp_all add: json_member_scalar)
  then have "collect (map json_member (map (map_prod id json_dumps) kvs))
      = Inr (map member_text kvs)"
    by (simp only: collect_Inr_iff)
  then show ?thesis by simp
qed

lemma read_member_text:
  assumes "scalar (snd kv)" and "delimited rest"
  shows "read_member (member_text kv @ rest) = Some (kv, rest)"
    and "read_member (32 # member_text kv @ rest) = Some (kv, rest)"
proof -
  obtain c cs where f: "scalar_text (snd kv) = c # cs" "c \<notin> {32, 9, 10, 13}"
    using scalar_text_first [OF assms(1)] by blast
  let ?tail = "ustr '': '' @ scalar_text (snd kv) @ rest"
  have q: "member_text kv @ rest = 34 # tl (json_quote (fst kv)) @ ?tail"
    by (simp add: member_text_def json_quote_def)
  have s: "read_string [] (tl (json_quote (fst kv)) @ ?tail) = Some (fst kv, ?tail)"
    by (rule read_string_quote)
  have w: "skip_ws ?tail = 58 # 32 # scalar_text (snd kv) @ rest"
    by (simp add: skip_ws_def ustr_def)
  have w2: "skip_ws (32 # scalar_text (snd kv) @ rest) = scalar_text (snd kv) @ rest"
    using f by (simp add: skip_ws_def)
  have v: "read_value (scalar_text (snd kv) @ rest) = Some (snd kv, rest)"
    using assms by (rule read_value_scalar)
  have m: "read_member (34 # tl (json_quote (fst kv)) @ ?tail) = Some (kv, rest)"
    using s w w2 v delimited_not_digit(4) [OF assms(2)]
    by (simp add: read_member_def skip_ws_def)
  show "read_member (member_text kv @ rest) = Some (kv, rest)"
    using m q by simp
  have "read_member (32 # 34 # tl (json_quote (fst kv)) @ ?tail) = Some (kv, rest)"
    using s w w2 v delimited_not_digit(4) [OF assms(2)]
    by (simp add: read_member_def skip_ws_def)
  then show "read_member (32 # member_text kv @ rest) = Some (kv, rest)"
    using q by simp
qed

lemma member_text_nonempty: "member_text kv \<noteq> []"
  by (simp add: member_text_def json_quote_def)

lemma read_members_join:
  assumes "list_all (\<lambda>kv. scalar (snd kv)) (kv # kvs)" and "length kvs < fuel"
    and "pre = [] \<or> pre = [32]"
  shows "read_members fuel (pre @ join (ustr '', '') (map member_text (kv # kvs)) @ 125 # rest)
      = Some (kv # kvs, rest)"
  using assms
proof (induction kvs arbitrary: kv fuel pre)
  case Nil
  obtain n where f: "fuel = Suc n" using Nil(2) by (cases fuel) auto
  have d: "delimited (125 # rest)" by (simp add: delimited_def)
  have "read_member (pre @ member_text kv @ 125 # rest) = Some (kv, 125 # rest)"
    using read_member_text [OF _ d, of kv] Nil(1,3) by auto
  then show ?case using f by simp
next
  case (Cons kv' kvs)
  obtain n where f: "fuel = Suc n" "length kvs < n" using Cons.prems(2) by (cases fuel) auto
  let ?tail = "join (ustr '', '') (map member_text (kv' # kvs)) @ 125 # rest"
  have d: "delimited (44 # 32 # ?tail)" by (simp add: delimited_def)
  have j: "pre @ join (ustr '', '') (map member_text (kv # kv' # kvs)) @ 125 # rest
      = pre @ member_text kv @ 44 # 32 # ?tail"
    by (simp add: ustr_def)
  have ih: "read_members n ([32] @ ?tail) = Some (kv' # kvs, rest)"
    using Cons.IH [of kv' n "[32]"] Cons.prems(1) f by simp
  have "read_member (pre @ member_text kv @ 44 # 32 # ?tail) = Some (kv, 44 # 32 # ?tail)"
    using read_member_text [OF _ d, of kv] Cons.prems(1,3) by auto
  then show ?case
    using f ih by (simp only: j) simp
qed

lemma length_join_members: "length kvs \<le> length (join sep (map member_text kvs))"
proof (induction kvs rule: induct_list012)
  case (2 kv)
  then show ?case using member_text_nonempty [of kv] by (cases "member_text kv") auto
next
  case (3 kv kv' kvs)
  then show ?case using member_text_nonempty [of kv] by (cases "member_text kv") auto
qed simp

lemma dict_put_fresh: "k \<notin> fst ` set d \<Longrightarrow> dict_put k v d = d @ [(k, v)]"
  by (induction d) auto

lemma dict_of_pairs_from:
  "distinct (map fst (d @ kvs)) \<Longrightarrow>
   foldl (\<lambda>d kv. dict_put (fst kv) (snd kv) d) d kvs = d @ kvs"
proof (induction kvs arbitrary: d)
  case Nil
  then show ?case by simp
next
  case (Cons kv kvs)
  then have "fst kv \<notin> fst ` set d" by auto
  then have "dict_put (fst kv) (snd kv) d = d @ [kv]" by (simp add: dict_put_fresh)
  then show ?case using Cons.IH [of "d @ [kv]"] Cons.prems by simp
qed

lemma dict_of_pairs_distinct: "distinct (map fst kvs) \<Longrightarrow> dict_of_pairs kvs = kvs"
  using dict_of_pairs_from [of "[]" kvs] by (simp add: dict_of_pairs_def)

lemma json_loads_flat:
  assumes "list_all (\<lambda>kv. scalar (snd kv)) kvs" and "distinct (map fst kvs)"
  shows "json_loads (ustr ''{'' @ join (ustr '', '') (map member_text kvs) @ ustr ''}'')
      = Some (PDict kvs)"
proof (cases kvs)
  case Nil
  then show ?thesis by (simp add: json_loads_def skip_ws_def ustr_def)
next
  case (Cons kv rest)
  define r where "r = join (ustr '', '') (map member_text kvs) @ [125]"
  obtain ms where ms: "r = 34 # ms"
    using Cons by (cases rest) (simp_all add: r_def member_text_def json_quote_def)
  have "length rest < length r"
    using length_join_members [of kvs "ustr '', ''"] Cons by (simp add: r_def)
  then have m: "read_members (length r) r = Some (kvs, [])"
    using read_members_join [of kv rest "length r" "[]" "[]"] assms(1) Cons
    by (simp add: r_def)
  have t: "ustr ''{'' @ join (ustr '', '') (map member_text kvs) @ ustr ''}'' = 123 # r"
    by (simp add: r_def ustr_def)
  have w: "skip_ws (123 # 34 # ms) = 123 # 34 # ms" "skip_ws (34 # ms) = 34 # ms"
    "skip_ws [] = []"
    by (simp_all add: skip_ws_def)
  have "json_loads (123 # r) = Some (PDict (dict_of_pairs kvs))"
    using m by (simp add: json_loads_def ms w del: read_members.simps)
  then show ?thesis
    using assms(2) by (simp only: t dict_of_pairs_distinct)
qed

lemma round_trip_flat:
  assumes "list_all (\<lambda>kv. scalar (snd kv)) kvs" and "distinct (map fst kvs)"
  shows "\<exists>out. json_dumps (PDict kvs) = Inr out \<and> json_loads out = Some (PDict kvs)"
  using json_dumps_flat [OF assms(1)] json_loads_flat [OF assms] by simp

subsection \<open>Code points outside ASCII\<close>

lemma count_escape:
  "128 \<le> c \<Longrightarrow> count_list (json_escape_char x) c = (if x = c then 1 else 0)"
  by (auto simp: json_escape_char_def hex_digit_def)

lemma count_quote: "128 \<le> c \<Longrightarrow> count_list (json_quote s) c = count_list s c"
proof -
  assume c: "128 \<le> c"
  have "count_list (concat (map json_escape_char s)) c = count_list s c"
    by (induction s) (simp_all add: count_escape [OF c])
  with c show ?thesis by (simp add: json_quote_def)
qed

lemma count_str_of_int: "128 \<le> c \<Longrightarrow> count_list (str_of_int i) c = 0"
proof -
  assume c: "128 \<le> c"
  have "c \<notin> set (str_of_nat n)" for n
    using str_of_nat_digits [of c n] c by (auto simp: is_digit_def)
  with c show ?thesis by (simp add: str_of_int_def)
qed

lemma count_scalar:
  assumes "scalar v" and "128 \<le> c"
  shows "count_list (scalar_text v) c = count_list (text_of v) c"
  using assms
  by (cases v) (simp_all add: scalar_text_def count_quote count_str_of_int ustr_def)

lemma count_member:
  assumes "scalar (snd kv)" and "128 \<le> c" and "\<forall>x \<in> set (fst kv). x < 128"
  shows "count_list (member_text kv) c = count_list (text_of (snd kv)) c"
proof -
  have "c \<notin> set (fst kv)" using assms(2,3) by auto
  then show ?thesis
    using assms(1,2) by (simp add: member_text_def count_quote count_scalar ustr_def)
qed

lemma count_join:
  "c \<notin> set sep \<Longrightarrow> count_list (join sep xs) c = sum_list (map (\<lambda>x. count_list x c) xs)"
  by (induction xs rule: induct_list012) simp_all

lemma count_flat:
  assumes "list_all (\<lambda>kv. scalar (snd kv)) kvs" and "128 \<le> c"
    and "\<forall>kv \<in> set kvs. \<forall>x \<in> set (fst kv). x < 128"
  shows "count_list (ustr ''{'' @ join (ustr '', '') (map member_text kvs) @ ustr ''}'') c
     = sum_list (map (\<lambda>kv. count_list (text_of (snd kv)) c) kvs)"
proof -
  have "sum_list (map (\<lambda>kv. count_list (member_text kv) c) kvs)
      = sum_list (map (\<lambda>kv. count_list (text_of (snd kv)) c) kvs)"
    using assms by (induction kvs) (simp_all add: count_member)
  moreover have "c \<notin> set (ustr '', '')" using assms(2) by (simp add: ustr_def)
  ultimately show ?thesis
    using assms(2) by (simp add: count_join comp_def) (simp add: ustr_def)
qed

subsection \<open>The metadata mapping\<close>

lemma scalar_arg_or: "arg_ok x \<Longrightarrow> scalar d \<Longrightarrow> scalar (arg_or d x)"
  by (cases x) (simp_all add: arg_or_def)

lemma meta_content_items:
  "\<exists>kvs. meta_content a = PDict kvs \<and> map fst kvs = meta_keys"
  by (simp add: meta_content_def meta_keys_def)

lemma meta_content_scalar:
  assumes "args_ok a"
  shows "list_all (\<lambda>kv. scalar (snd kv)) (dict_items (meta_content a))"
  using assms by (simp add: args_ok_def meta_content_def scalar_arg_or)

lemma meta_keys_distinct: "distinct meta_keys"
  by (simp add: meta_keys_def ustr_def)

lemma meta_keys_ascii: "\<forall>k \<in> set meta_keys. \<forall>x \<in> set k. x < 128"
  by (simp add: meta_keys_def ustr_def)

lemma text_arg_ok: "text_arg x \<Longrightarrow> arg_ok x"
  by (cases x rule: text_arg.cases) (auto elim: text_or_none.elims)

lemma text_args_ok: "text_args a \<Longrightarrow> args_ok a"
  by (simp add: text_args_def args_ok_def text_arg_ok)

lemma meta_content_round_trip:
  assumes "args_ok a"
  shows "\<exists>out kvs.
     create_meta_file a = Inr out \<and>
     json_loads out = Some (meta_content a) \<and>
     meta_content a = PDict kvs \<and>
     (\<forall>c. 128 \<le> c \<longrightarrow>
        count_list out c = sum_list (map (\<lambda>kv. count_list (text_of (snd kv)) c) kvs))"
proof -
  obtain kvs where k: "meta_content a = PDict kvs" "map fst kvs = meta_keys"
    using meta_content_items by blast
  have s: "list_all (\<lambda>kv. scalar (snd kv)) kvs"
    using meta_content_scalar [OF assms] k by simp
  have d: "distinct (map fst kvs)"
    using k meta_keys_distinct by simp
  have a: "\<forall>kv \<in> set kvs. \<forall>x \<in> set (fst kv). x < 128"
    using k(2) meta_keys_ascii by (metis image_eqI list.set_map)
  let ?out = "ustr ''{'' @ join (ustr '', '') (map member_text kvs) @ ustr ''}''"
  have "create_meta_file a = Inr ?out"
    using json_dumps_flat [OF s] k by (simp add: create_meta_file_def)
  moreover have "json_loads ?out = Some (meta_content a)"
    using json_loads_flat [OF s d] k by simp
  moreover have "\<forall>c. 128 \<le> c \<longrightarrow>
        count_list ?out c = sum_list (map (\<lambda>kv. count_list (text_of (snd kv)) c) kvs)"
    using count_flat [OF s _ a] by blast
  ultimately show ?thesis using k by blast
qed

lemma count_arg_or:
  assumes "128 \<le> c" and "c \<notin> set (text_of d)"
  shows "count_list (text_of (arg_or d x)) c = count_list (arg_text x) c"
  using assms by (cases x) (simp_all add: arg_or_def)

text \<open>
  C4. For every assignment of text (ASCII or not) or None to the twelve parameters, omitted
  ones taking their defaults, \<open>create_meta_file\<close> returns a text; decoding that text gives
  the mapping that holds, under each of the twelve names and in the order of the signature,
  the value passed for that parameter (0 for an omitted level, "file" for an omitted
  attachment_type, None for any other omitted one), the keys of None and empty values
  included; and every code point outside ASCII occurs in the text exactly as often as in
  the arguments, so none is escaped.
\<close>

theorem metadata_round_trip:
  assumes "text_args a"
  shows "\<exists>out.
     create_meta_file a = Inr out \<and>
     json_loads out = Some (PDict
       [(ustr ''level'', case level a of None \<Rightarrow> PInt 0 | Some v \<Rightarrow> v),
        (ustr ''title'', case title a of None \<Rightarrow> PNone | Some v \<Rightarrow> v),
        (ustr ''file_name'', case file_name a of None \<Rightarrow> PNone | Some v \<Rightarrow> v),
        (ustr ''file_record_id'', case file_record_id a of None \<Rightarrow> PNone | Some v \<Rightarrow> v),
        (ustr ''file_original_name'',
           case file_original_name a of None \<Rightarrow> PNone | Some v \<Rightarrow> v),
        (ustr ''file_original_path'',
           case file_original_path a of None \<Rightarrow> PNone | Some v \<Rightarrow> v),
        (ustr ''source'', case source a of None \<Rightarrow> PNone | Some v \<Rightarrow> v),
        (ustr ''value_stream'', case value_stream a of None \<Rightarrow> PNone | Some v \<Rightarrow> v),
        (ustr ''categories'', case categories a of None \<Rightarrow> PNone | Some v \<Rightarrow> v),
        (ustr ''parent_file_name'',
           case parent_file_name a of None \<Rightarrow> PNone | Some v \<Rightarrow> v),
        (ustr ''attachment_type'',
           case attachment_type a of None \<Rightarrow> PStr (ustr ''file'') | Some v \<Rightarrow> v),
        (ustr ''owner'', case owner a of None \<Rightarrow> PNone | Some v \<Rightarrow> v)]) \<and>
     (\<forall>c. 128 \<le> c \<longrightarrow>
        count_list out c = sum_list (map (\<lambda>x. count_list (arg_text x) c)
          [level a, title a, file_name a, file_record_id a, file_original_name a,
           file_original_path a, source a, value_stream a, categories a,
           parent_file_name a, attachment_type a, owner a]))"
proof -
  obtain out kvs where o: "create_meta_file a = Inr out"
    "json_loads out = Some (meta_content a)"
    "meta_content a = PDict kvs"
    "\<forall>c. 128 \<le> c \<longrightarrow>
        count_list out c = sum_list (map (\<lambda>kv. count_list (text_of (snd kv)) c) kvs)"
    using meta_content_round_trip [OF text_args_ok [OF assms]] by blast
  have f: "c \<notin> set (text_of (PStr (ustr ''file'')))" if "128 \<le> c" for c :: nat
    using that by (simp add: ustr_def)
  have "sum_list (map (\<lambda>kv. count_list (text_of (snd kv)) c) kvs)
      = sum_list (map (\<lambda>x. count_list (arg_text x) c)
          [level a, title a, file_name a, file_record_id a, file_original_name a,
           file_original_path a, source a, value_stream a, categories a,
           parent_file_name a, attachment_type a, owner a])" if "128 \<le> c" for c
    using o(3) that f [OF that] by (auto simp: meta_content_def count_arg_or)
  with o(4) have "\<forall>c. 128 \<le> c \<longrightarrow>
        count_list out c = sum_list (map (\<lambda>x. count_list (arg_text x) c)
          [level a, title a, file_name a, file_record_id a, file_original_name a,
           file_original_path a, source a, value_stream a, categories a,
           parent_file_name a, attachment_type a, owner a])"
    by simp
  with o(1,2) show ?thesis
    by (simp add: meta_content_def arg_or_def)
qed

theorem metadata_round_trip_witness:
  "text_args ex_meta_args \<and>
   (\<exists>out. create_meta_file ex_meta_args = Inr out \<and>
      json_loads out = Some (PDict
        [(ustr ''level'', PInt 0),
         (ustr ''title'', PStr [0x4E2D, 0x6587, 34, 92, 10, 1, 0xE9]),
         (ustr ''file_name'', PStr (ustr ''f.md'')),
         (ustr ''file_record_id'', PStr []),
         (ustr ''file_original_name'', PNone),
         (ustr ''file_original_path'', PNone),
         (ustr ''source'', PStr (ustr ''jira-iwpb'')),
         (ustr ''value_stream'', PStr []),
         (ustr ''categories'', PStr []),
         (ustr ''parent_file_name'', PNone),
         (ustr ''attachment_type'', PStr (ustr ''file'')),
         (ustr ''owner'', PStr [0xFC])]) \<and>
      count_list out 0x4E2D = 1 \<and> count_list out 0xFC = 1)"
proof -
  have a: "text_args ex_meta_args"
    by (simp add: text_args_def ex_meta_args_def pstr_def)
  obtain out where o: "create_meta_file ex_meta_args = Inr out"
    "json_loads out = Some (PDict
       [(ustr ''level'', case level ex_meta_args of None \<Rightarrow> PInt 0 | Some v \<Rightarrow> v),
        (ustr ''title'', case title ex_meta_args of None \<Rightarrow> PNone | Some v \<Rightarrow> v),
        (ustr ''file_name'', case file_name ex_meta_args of None \<Rightarrow> PNone | Some v \<Rightarrow> v),
        (ustr ''file_record_id'',
           case file_record_id ex_meta_args of None \<Rightarrow> PNone | Some v \<Rightarrow> v),
        (ustr ''file_original_name'',
           case file_original_name ex_meta_args of None \<Rightarrow> PNone | Some v \<Rightarrow> v),
        (ustr ''file_original_path'',
           case file_original_path ex_meta_args of None \<Rightarrow> PNone | Some v \<Rightarrow> v),
        (ustr ''source'', case source ex_meta_args of None \<Rightarrow> PNone | Some v \<Rightarrow> v),
        (ustr ''value_stream'',
           case value_stream ex_meta_args of None \<Rightarrow> PNone | Some v \<Rightarrow> v),
        (ustr ''categories'', case categories ex_meta_args of None \<Rightarrow> PNone | Some v \<Rightarrow> v),
        (ustr ''parent_file_name'',
           case parent_file_name ex_meta_args of None \<Rightarrow> PNone | Some v \<Rightarrow> v),
        (ustr ''attachment_type'',
           case attachment_type ex_meta_args of
             None \<Rightarrow> PStr (ustr ''file'') | Some v \<Rightarrow> v),
        (ustr ''owner'', case owner ex_meta_args of None \<Rightarrow> PNone | Some v \<Rightarrow> v)])"
    "\<forall>c. 128 \<le> c \<longrightarrow>
        count_list out c = sum_list (map (\<lambda>x. count_list (arg_text x) c)
          [level ex_meta_args, title ex_meta_args, file_name ex_meta_args,
           file_record_id ex_meta_args, file_original_name ex_meta_args,
           file_original_path ex_meta_args, source ex_meta_args, value_stream ex_meta_args,
           categories ex_meta_args, parent_file_name ex_meta_args,
           attachment_type ex_meta_args, owner ex_meta_args])"
    using metadata_round_trip [OF a] by blast
  have c1: "count_list out 0x4E2D = 1"
    using o(3) [rule_format, of "0x4E2D"]
    by (simp add: ex_meta_args_def pstr_def ustr_def)
  have c2: "count_list out 0xFC = 1"
    using o(3) [rule_format, of "0xFC"]
    by (simp add: ex_meta_args_def pstr_def ustr_def)
  have "json_loads out = Some (PDict
        [(ustr ''level'', PInt 0),
         (ustr ''title'', PStr [0x4E2D, 0x6587, 34, 92, 10, 1, 0xE9]),
         (ustr ''file_name'', PStr (ustr ''f.md'')),
         (ustr ''file_record_id'', PStr []),
         (ustr ''file_original_name'', PNone),
         (ustr ''file_original_path'', PNone),
         (ustr ''source'', PStr (ustr ''jira-iwpb'')),
         (ustr ''value_stream'', PStr []),
         (ustr ''categories'', PStr []),
         (ustr ''parent_file_name'', PNone),
         (ustr ''attachment_type'', PStr (ustr ''file'')),
         (ustr ''owner'', PStr [0xFC])])"
    using o(2) by (simp add: ex_meta_args_def pstr_def)
  with a o(1) c1 c2 show ?thesis by blast
qed

section \<open>The body of proc_task with a text identifier\<close>

text \<open>
  What lines 77 to 143 do once \<open>record_id\<close> and \<open>md_file_name\<close> are strings: on every
  well-formed document they return the triple, and the report and the key they return do
  not depend on the identifier.
\<close>

lemma create_meta_file_ok:
  assumes "args_ok a"
  shows "\<exists>out. create_meta_file a = Inr out"
proof -
  obtain kvs where k: "meta_content a = PDict kvs"
    using meta_content_items by blast
  then have "list_all (\<lambda>kv. scalar (snd kv)) kvs"
    using meta_content_scalar [OF assms] by simp
  then show ?thesis
    using json_dumps_flat k by (simp add: create_meta_file_def)
qed

lemma main_meta_of_ok:
  assumes "map_of d (ustr ''summary'') = Some (PStr t)"
    and "holds is_pstr (map_of mk (ustr ''self''))"
  shows "\<exists>out. main_meta_of (PDict d) (PStr fname) (PStr rid) (PDict mk) = Inr out"
proof -
  from assms(2) obtain u where u: "map_of mk (ustr ''self'') = Some (PStr u)"
    by (auto simp: holds_iff is_pstr_iff)
  let ?a = "\<lparr>level = Some (PInt 0),
        title = Some (PStr t),
        file_name = Some (PStr fname),
        file_record_id = Some (PStr rid),
        file_original_name = Some (PStr t),
        file_original_path = Some (PStr ((u @ ustr ''/'') @ fname)),
        source = Some (PStr (ustr ''jira-iwpb'')),
        value_stream = Some (PStr []),
        categories = Some (PStr []),
        parent_file_name = Some PNone,
        attachment_type = Some (PStr (ustr ''file'')),
        owner = Some (PStr [])\<rparr>"
  have "args_ok ?a" by (simp add: args_ok_def)
  then obtain out where "create_meta_file ?a = Inr out"
    using create_meta_file_ok by blast
  then show ?thesis
    using assms(1) u by (simp add: main_meta_of_def)
qed

lemma body_returns_on_well_formed:
  assumes "doc_shape None json_result"
  shows "\<exists>report meta k.
     proc_task_body repr (PStr fname) (PStr rid) json_result True = Inr (report, meta, k)"
proof -
  obtain mk where m: "main_task_of json_result True = Inr (PDict mk)"
    and ms: "main_shape None (PDict mk)"
    using main_task_stage [OF assms] by blast
  obtain fk where f: "py_getitem (PDict mk) (PStr (ustr ''fields'')) = Inr (PDict fk)"
    and fs: "fields_shape None (PDict fk)"
    using fields_stage [OF ms] by blast
  from ms obtain k where k: "py_getitem (PDict mk) (PStr (ustr ''key'')) = Inr k"
    by (auto simp: present_other holds_iff)
  from ms have s: "holds is_pstr (map_of mk (ustr ''self''))"
    by (simp add: present_other)
  obtain d t where d: "md_dict_of (PDict fk) = Inr (PDict d)"
    "has_keys main_keys (PDict d)" "map_of d (ustr ''summary'') = Some (PStr t)"
    using md_dict_of_ok [OF fs] by auto
  from fs have "holds attachments_ok (map_of fk (ustr ''attachment''))"
    by (simp add: present_other)
  then obtain al where al: "attach_list_of (PDict fk) = Inr (PList al)"
    "list_all (has_keys attachment_keys) al"
    using attach_stage by blast
  obtain sl where sl: "sub_task_list_of json_result = Inr (PList sl)"
    "list_all (has_keys sub_task_keys) sl"
    using sub_stage_doc [OF assms] by blast
  obtain report where r: "create_md_file repr (PDict d) (PList al) (PList sl) = Inr report"
    using create_md_file_ok [OF d(2) al(2) sl(2)] by blast
  obtain meta where "main_meta_of (PDict d) (PStr fname) (PStr rid) (PDict mk) = Inr meta"
    using main_meta_of_ok [OF d(3) s] by blast
  with m f k d al sl r show ?thesis
    by (simp add: proc_task_body_def)
qed

lemma ex_doc_well_formed: "doc_shape None ex_doc"
  by (simp add: ex_defs present_def anything_def ustr_def)

lemma report_independent_of_identifier:
  assumes "proc_task_body repr fname1 rid1 json_result is_main_task = Inr (report1, meta1, k1)"
    and "proc_task_body repr fname2 rid2 json_result is_main_task = Inr (report2, meta2, k2)"
  shows "report1 = report2 \<and> k1 = k2"
  using assms by (auto simp: proc_task_body_def andthen_Inr_iff)


end
